theory Spec2Isabelle
  imports Complex_Main
begin

section \<open>create\_tfrecords.py: annotation validation and sharding\<close>

text \<open>
  A shallow embedding of \<^verbatim>\<open>src/data/create_tfrecords.py\<close>.

  Numbers: a Python \<^verbatim>\<open>float\<close> is an IEEE 754 double. It is modelled by the real
  number it denotes, and every operation that rounds is written with its rounding,
  \<open>fl64\<close>, round to nearest with ties to even. The floats of a \<^verbatim>\<open>tf.train.FloatList\<close>
  are single precision; storing a double there rounds it once more, \<open>fl32\<close>. Infinities
  and NaN are left out: the numbers of an annotation are finite, and magnitudes stay
  inside the range of both formats. The width and the height are below \<open>2 ^ 53\<close>, as
  the pixel size of an image that PIL decodes is, so they convert to \<^verbatim>\<open>float\<close> exactly.
  Python's unbounded integers are \<^typ>\<open>int\<close>; line 140 divides two counts, and that
  quotient is taken exactly. Byte strings and text are \<^typ>\<open>string\<close>.
  The annotation is taken as a well-formed dictionary: every key the script reads is
  present, \<^verbatim>\<open>size.width\<close> and \<^verbatim>\<open>size.height\<close> are integers (so \<^verbatim>\<open>int(...)\<close>
  is the identity on them), the box entries are numbers, and \<^verbatim>\<open>landmarks\<close> is a
  sequence of two-element sequences of numbers.
\<close>

subsection \<open>Exceptions\<close>

text \<open>
  The exceptions the modelled code can raise. \<open>AssertionError n\<close> is Python's
  \<^verbatim>\<open>AssertionError\<close> raised by the \<^verbatim>\<open>assert\<close> statement on source line \<open>n\<close>
  (the line its traceback records). \<open>NotFoundError\<close> is what reading a missing file
  through \<^verbatim>\<open>tf.gfile.GFile\<close> raises; \<open>UnidentifiedImageError\<close> is what
  \<^verbatim>\<open>PIL.Image.open\<close> raises on bytes it cannot identify; \<open>AnnotationLoadError\<close> stands
  for any failure of \<^verbatim>\<open>json.load(open(path))\<close>. \<open>ZeroDivisionError\<close> is raised by
  line 140 when \<^verbatim>\<open>num_shards\<close> is 0, \<open>FileExistsError\<close> by \<^verbatim>\<open>os.mkdir\<close> on an existing
  path, and \<open>WriterClosedError\<close> stands for writing through a writer that was never
  created or is already closed (the loop never does, see \<open>writer_ok\<close>).
\<close>

datatype error =
    AssertionError nat
  | NotFoundError
  | UnidentifiedImageError
  | AnnotationLoadError
  | ZeroDivisionError
  | FileExistsError
  | WriterClosedError

subsection \<open>Data\<close>

text \<open>
  A number of the annotation is the value \<^verbatim>\<open>json.load\<close> produced for it: an integer,
  or the double a decimal literal was parsed to.
\<close>

record box =
  b_xmin :: real
  b_ymin :: real
  b_xmax :: real
  b_ymax :: real

record img_size =
  width :: int
  height :: int
  depth :: int

record annotation =
  filename :: string
  box :: box
  landmarks_px :: "(real \<times> real) list"
  size_of :: img_size

text \<open>What \<^verbatim>\<open>PIL.Image.open\<close> exposes of an image: its format, mode and pixel size.\<close>

record pil_image =
  format :: string
  mode :: string
  size0 :: int
  size1 :: int

text \<open>
  The features of the \<^verbatim>\<open>tf.train.Example\<close> built on lines 103--110. The box and
  the landmarks are the single-precision values the message holds.
\<close>

record example =
  image_bytes :: string
  xmin :: real
  xmax :: real
  ymin :: real
  ymax :: real
  landmarks :: "real list"

text \<open>
  The outside world the script works in. \<open>gfile_read p\<close> is the content
  \<^verbatim>\<open>tf.gfile.GFile(p, 'rb').read()\<close> returns (\<open>None\<close> when the file is missing);
  \<open>pil_open bs\<close> is the header \<^verbatim>\<open>PIL.Image.open\<close> decodes from the bytes \<open>bs\<close>
  (\<open>None\<close> when it cannot identify an image); \<open>json_load p\<close> is the dictionary
  \<^verbatim>\<open>json.load(open(p))\<close> returns (\<open>None\<close> when the file cannot be opened or parsed).
  \<open>out_dir\<close> is the directory tree at \<^verbatim>\<open>ARGS.output\<close>: \<open>None\<close> when nothing exists
  there, otherwise the files in it, each a sequence of written records, keyed by path.
  \<open>deletable\<close> says whether \<^verbatim>\<open>shutil.rmtree\<close> is able to remove that tree. The
  image and annotation directories are assumed to lie outside the output directory.
\<close>

record world =
  gfile_read :: "string \<Rightarrow> string option"
  pil_open :: "string \<Rightarrow> pil_image option"
  json_load :: "string \<Rightarrow> annotation option"
  deletable :: bool
  out_dir :: "(string \<rightharpoonup> example list) option"

text \<open>
  The parsed command line (\<^verbatim>\<open>make_args\<close>); \<open>output_arg\<close> is \<^verbatim>\<open>ARGS.output\<close>.
\<close>

record args =
  image_dir :: string
  annotations_dir :: string
  output_arg :: string
  num_shards :: int

subsection \<open>Library functions\<close>

definition endswith :: "string \<Rightarrow> string \<Rightarrow> bool" where
  "endswith s suf \<longleftrightarrow>
     length suf \<le> length s \<and> drop (length s - length suf) s = suf"

text \<open>\<^verbatim>\<open>os.path.join\<close> on two components (POSIX).\<close>

definition path_join :: "string \<Rightarrow> string \<Rightarrow> string" where
  "path_join a b =
     (if b \<noteq> [] \<and> hd b = CHR ''/'' then b
      else if a = [] \<or> last a = CHR ''/'' then a @ b
      else a @ ''/'' @ b)"

subsection \<open>Floating point\<close>

text \<open>Rounding a real to the nearest integer, a tie going to the even one.\<close>

definition round_half_even :: "real \<Rightarrow> int" where
  "round_half_even x =
     (let f = \<lfloor>x\<rfloor>; d = x - of_int f in
      if d < 1 / 2 then f
      else if 1 / 2 < d then f + 1
      else if even f then f else f + 1)"

definition pow2 :: "int \<Rightarrow> real" where
  "pow2 e = 2 powr of_int e"

text \<open>
  A binary format with \<open>p\<close> significant bits and least normal exponent \<open>emin\<close>. The
  numbers of the format around \<open>x\<close> are the multiples of \<open>pow2 (ulp_exp p emin x)\<close>:
  the exponent of \<open>x\<close>, but no less than \<open>emin\<close> (below it the numbers are subnormal
  and equally spaced), lowered by the \<open>p - 1\<close> fraction bits. \<open>fl p emin x\<close> is the
  number of the format nearest to \<open>x\<close>.
\<close>

definition ulp_exp :: "nat \<Rightarrow> int \<Rightarrow> real \<Rightarrow> int" where
  "ulp_exp p emin x = max \<lfloor>log 2 \<bar>x\<bar>\<rfloor> emin - int p + 1"

definition fl :: "nat \<Rightarrow> int \<Rightarrow> real \<Rightarrow> real" where
  "fl p emin x =
     sgn x * (of_int (round_half_even (\<bar>x\<bar> / pow2 (ulp_exp p emin x)))
                * pow2 (ulp_exp p emin x))"

text \<open>Double precision (binary64) and single precision (binary32).\<close>

definition fl64 :: "real \<Rightarrow> real" where
  "fl64 x = fl 53 (- 1022) x"

definition fl32 :: "real \<Rightarrow> real" where
  "fl32 x = fl 24 (- 126) x"

text \<open>
  \<^verbatim>\<open>float(v)\<close> of a number, and \<^verbatim>\<open>x / n\<close> for a number \<open>x\<close> and a positive integer
  \<open>n\<close>: the quotient, correctly rounded.
\<close>

definition py_float :: "real \<Rightarrow> real" where
  "py_float v = fl64 v"

definition truediv :: "real \<Rightarrow> int \<Rightarrow> real" where
  "truediv x n = fl64 (x / real_of_int n)"

text \<open>
  Lines 118--123: \<^verbatim>\<open>_float_feature\<close> and \<^verbatim>\<open>_float_list_feature\<close> put their doubles
  into a \<^verbatim>\<open>FloatList\<close>, which holds them in single precision.
\<close>

definition float_feature :: "real \<Rightarrow> real" where
  "float_feature v = fl32 v"

definition float_list_feature :: "real list \<Rightarrow> real list" where
  "float_list_feature vs = map fl32 vs"

subsection \<open>The validator: \<^verbatim>\<open>dict_to_tf_example\<close>\<close>

text \<open>
  The loop of lines 97--101 over the landmark pairs; \<open>acc\<close> is
  \<^verbatim>\<open>landmarks_flattened\<close>.
\<close>

fun flatten_landmarks ::
  "int \<Rightarrow> int \<Rightarrow> real \<Rightarrow> real \<Rightarrow> real \<Rightarrow> real \<Rightarrow> real list \<Rightarrow> (real \<times> real) list
     \<Rightarrow> error + real list" where
  "flatten_landmarks w h ymn ymx xmn xmx acc [] = Inr acc"
| "flatten_landmarks w h ymn ymx xmn xmx acc ((x, y) # rest) =
     (let y' = truediv y h; x' = truediv x w in
      if \<not> (y' \<le> ymx \<and> y' \<ge> ymn) then Inl (AssertionError 99)
      else if \<not> (x' \<le> xmx \<and> x' \<ge> xmn) then Inl (AssertionError 100)
      else flatten_landmarks w h ymn ymx xmn xmx (acc @ [y', x']) rest)"

definition dict_to_tf_example :: "world \<Rightarrow> annotation \<Rightarrow> string \<Rightarrow> error + example" where
  "dict_to_tf_example e annotation img_dir =
     (let image_name = filename annotation in
      if \<not> (endswith image_name ''.jpg'' \<or> endswith image_name ''.jpeg'')
      then Inl (AssertionError 71)
      else
        let image_path = path_join img_dir image_name in
        case gfile_read e image_path of
          None \<Rightarrow> Inl NotFoundError
        | Some encoded_jpg \<Rightarrow>
            (case pil_open e encoded_jpg of
               None \<Rightarrow> Inl UnidentifiedImageError
             | Some img \<Rightarrow>
                 if format img \<noteq> ''JPEG'' then Inl (AssertionError 80)
                 else if mode img \<noteq> ''RGB'' then Inl (AssertionError 81)
                 else
                   let w = width (size_of annotation);
                       h = height (size_of annotation) in
                   if \<not> (w > 0 \<and> h > 0) then Inl (AssertionError 85)
                   else if \<not> (size0 img = w \<and> size1 img = h) then Inl (AssertionError 86)
                   else
                     let ymn = truediv (py_float (b_ymin (box annotation))) h;
                         xmn = truediv (py_float (b_xmin (box annotation))) w;
                         ymx = truediv (py_float (b_ymax (box annotation))) h;
                         xmx = truediv (py_float (b_xmax (box annotation))) w in
                     if \<not> (ymn < ymx \<and> xmn < xmx) then Inl (AssertionError 92)
                     else
                       (case flatten_landmarks w h ymn ymx xmn xmx []
                               (landmarks_px annotation) of
                          Inl err \<Rightarrow> Inl err
                        | Inr landmarks_flattened \<Rightarrow>
                            Inr \<lparr>image_bytes = encoded_jpg,
                                 xmin = float_feature xmn, xmax = float_feature xmx,
                                 ymin = float_feature ymn, ymax = float_feature ymx,
                                 landmarks = float_list_feature landmarks_flattened\<rparr>)))"

subsection \<open>The shard writer and the main loop\<close>

text \<open>Decimal digits of a natural number, as \<^verbatim>\<open>'%d'\<close> prints them.\<close>

fun str_nat :: "nat \<Rightarrow> string" where
  "str_nat n =
     (if n < 10 then [''0123456789'' ! n]
      else str_nat (n div 10) @ [''0123456789'' ! (n mod 10)])"

text \<open>\<^verbatim>\<open>'%04d' % n\<close> for \<open>n \<ge> 0\<close>: zero-padded on the left to a width of at least 4.\<close>

definition fmt_04d :: "nat \<Rightarrow> string" where
  "fmt_04d n = replicate (4 - length (str_nat n)) CHR ''0'' @ str_nat n"

text \<open>Line 152: \<^verbatim>\<open>os.path.join(output_dir, 'shard-%04d.tfrecords' % shard_id)\<close>.\<close>

definition shard_path :: "string \<Rightarrow> nat \<Rightarrow> string" where
  "shard_path output_dir i = path_join output_dir (''shard-'' @ fmt_04d i @ ''.tfrecords'')"

text \<open>
  Lines 144--145: \<^verbatim>\<open>shutil.rmtree(output_dir, ignore_errors=True)\<close> removes the tree
  when it can and otherwise silently leaves it; \<^verbatim>\<open>os.mkdir\<close> raises when the path
  still exists.
\<close>

definition rmtree_ignore_errors :: "world \<Rightarrow> world" where
  "rmtree_ignore_errors w = (if deletable w then w\<lparr>out_dir := None\<rparr> else w)"

definition mkdir :: "world \<Rightarrow> error + world" where
  "mkdir w =
     (case out_dir w of
        None \<Rightarrow> Inr (w\<lparr>out_dir := Some Map.empty\<rparr>)
      | Some _ \<Rightarrow> Inl FileExistsError)"

text \<open>
  The variables of the loop on lines 147--164. \<open>writer\<close> is the path of the open
  \<^verbatim>\<open>TFRecordWriter\<close>, \<open>None\<close> before the first one is created and after
  \<^verbatim>\<open>close()\<close>; \<open>files\<close> is the content of the output directory.
\<close>

record loop_state =
  shard_id :: nat
  num_examples_written :: int
  writer :: "string option"
  files :: "string \<rightharpoonup> example list"

text \<open>Lines 155--157: load one annotation entry and convert it.\<close>

definition load_and_convert :: "world \<Rightarrow> args \<Rightarrow> string \<Rightarrow> error + example" where
  "load_and_convert w a entry =
     (case json_load w (path_join (annotations_dir a) entry) of
        None \<Rightarrow> Inl AnnotationLoadError
      | Some annotation \<Rightarrow> dict_to_tf_example w annotation (image_dir a))"

text \<open>
  Lines 151--153: when no record has been written to the current shard, its file is
  created (empty) and becomes the open writer.
\<close>

definition open_shard :: "args \<Rightarrow> loop_state \<Rightarrow> loop_state" where
  "open_shard a st =
     (if num_examples_written st = 0
      then let shard_path = shard_path (output_arg a) (shard_id st)
           in st\<lparr>writer := Some shard_path, files := (files st)(shard_path \<mapsto> [])\<rparr>
      else st)"

text \<open>
  One iteration of the loop (lines 151--164). An exception leaves the state as it was
  when it was raised and is returned beside it.
\<close>

definition loop_body ::
  "world \<Rightarrow> args \<Rightarrow> int \<Rightarrow> loop_state \<Rightarrow> string \<Rightarrow> loop_state \<times> error option" where
  "loop_body w a shard_size st entry =
     (let st1 = open_shard a st
      in case load_and_convert w a entry of
           Inl err \<Rightarrow> (st1, Some err)
         | Inr tf_example \<Rightarrow>
             (case writer st1 of
                None \<Rightarrow> (st1, Some WriterClosedError)
              | Some p \<Rightarrow>
                  let old = (case files st1 p of None \<Rightarrow> [] | Some rs \<Rightarrow> rs);
                      st2 = st1\<lparr>files := (files st1)(p \<mapsto> old @ [tf_example]),
                                num_examples_written := num_examples_written st1 + 1\<rparr>
                  in if num_examples_written st2 = shard_size
                     then (st2\<lparr>shard_id := shard_id st2 + 1,
                               num_examples_written := 0,
                               writer := None\<rparr>, None)
                     else (st2, None)))"

fun run_loop ::
  "world \<Rightarrow> args \<Rightarrow> int \<Rightarrow> loop_state \<Rightarrow> string list \<Rightarrow> loop_state \<times> error option" where
  "run_loop w a shard_size st [] = (st, None)"
| "run_loop w a shard_size st (entry # rest) =
     (case loop_body w a shard_size st entry of
        (st', Some err) \<Rightarrow> (st', Some err)
      | (st', None) \<Rightarrow> run_loop w a shard_size st' rest)"

text \<open>Line 140: \<^verbatim>\<open>math.ceil(num_examples/num_shards)\<close>, for \<open>num_shards \<noteq> 0\<close>.\<close>

definition shard_size_of :: "int \<Rightarrow> int \<Rightarrow> int" where
  "shard_size_of num_examples n_shards = \<lceil>real_of_int num_examples / real_of_int n_shards\<rceil>"

text \<open>Lines 147--148, in the freshly created (empty) output directory.\<close>

definition initial_state :: loop_state where
  "initial_state =
     \<lparr>shard_id = 0, num_examples_written = 0, writer = None, files = Map.empty\<rparr>"

text \<open>
  \<^verbatim>\<open>main\<close> (lines 126--169). \<open>examples_list\<close> is the listing of the annotation
  directory in the order \<^verbatim>\<open>random.shuffle\<close> left it. The result is the world after
  the run and the exception that ended it, if any.
\<close>

definition main :: "world \<Rightarrow> args \<Rightarrow> string list \<Rightarrow> world \<times> error option" where
  "main w a examples_list =
     (let num_examples = int (length examples_list) in
      if num_shards a = 0 then (w, Some ZeroDivisionError)
      else
        let shard_size = shard_size_of num_examples (num_shards a);
            w0 = rmtree_ignore_errors w
        in case mkdir w0 of
             Inl err \<Rightarrow> (w0, Some err)
           | Inr w1 \<Rightarrow>
               (case run_loop w1 a shard_size initial_state examples_list of
                  (st, Some err) \<Rightarrow> (w1\<lparr>out_dir := Some (files st)\<rparr>, Some err)
                | (st, None) \<Rightarrow>
                    let st' = (if num_examples_written st \<noteq> 0
                               then st\<lparr>writer := None\<rparr> else st)
                    in (w1\<lparr>out_dir := Some (files st')\<rparr>, None)))"

section \<open>Notions used to state the properties\<close>

text \<open>
  The checks of lines 71--86 all pass: the extension is accepted, the image file is
  read and identified, it is an RGB JPEG, and the declared size is positive and equal
  to the decoded one.
\<close>

definition image_checks :: "world \<Rightarrow> annotation \<Rightarrow> string \<Rightarrow> bool" where
  "image_checks e a d \<longleftrightarrow>
     (endswith (filename a) ''.jpg'' \<or> endswith (filename a) ''.jpeg'') \<and>
     (case gfile_read e (path_join d (filename a)) of
        None \<Rightarrow> False
      | Some bs \<Rightarrow>
          (case pil_open e bs of
             None \<Rightarrow> False
           | Some img \<Rightarrow>
               format img = ''JPEG'' \<and> mode img = ''RGB'' \<and>
               0 < width (size_of a) \<and> 0 < height (size_of a) \<and>
               size0 img = width (size_of a) \<and> size1 img = height (size_of a)))"

text \<open>
  The doubles lines 88--91 compute for the box: \<^verbatim>\<open>float(box[k]) / size\<close>.
\<close>

definition box_ymin :: "annotation \<Rightarrow> real" where
  "box_ymin a = truediv (py_float (b_ymin (box a))) (height (size_of a))"

definition box_xmin :: "annotation \<Rightarrow> real" where
  "box_xmin a = truediv (py_float (b_xmin (box a))) (width (size_of a))"

definition box_ymax :: "annotation \<Rightarrow> real" where
  "box_ymax a = truediv (py_float (b_ymax (box a))) (height (size_of a))"

definition box_xmax :: "annotation \<Rightarrow> real" where
  "box_xmax a = truediv (py_float (b_xmax (box a))) (width (size_of a))"

text \<open>
  A landmark \<open>(x, y)\<close> in pixels lies, after division by the declared size, within the
  normalized box, bounds included. Both sides are the doubles lines 99 and 100 compare.
\<close>

definition in_box :: "annotation \<Rightarrow> real \<times> real \<Rightarrow> bool" where
  "in_box a p \<longleftrightarrow>
     (case p of (x, y) \<Rightarrow>
        box_ymin a \<le> truediv y (height (size_of a)) \<and>
        truediv y (height (size_of a)) \<le> box_ymax a \<and>
        box_xmin a \<le> truediv x (width (size_of a)) \<and>
        truediv x (width (size_of a)) \<le> box_xmax a)"

text \<open>
  The record the specification describes for an annotation: the bytes of the image
  file, the box divided by the declared size, and the landmarks divided by the
  declared size with each pair emitted as \<open>(y, x)\<close>, every quotient a double held in
  single precision.
\<close>

definition normalized :: "world \<Rightarrow> annotation \<Rightarrow> string \<Rightarrow> example" where
  "normalized e a d =
     \<lparr>image_bytes = (case gfile_read e (path_join d (filename a)) of None \<Rightarrow> [] | Some bs \<Rightarrow> bs),
      xmin = fl32 (box_xmin a),
      xmax = fl32 (box_xmax a),
      ymin = fl32 (box_ymin a),
      ymax = fl32 (box_ymax a),
      landmarks = map fl32 (concat (map (\<lambda>(x, y). [truediv y (height (size_of a)),
                                                     truediv x (width (size_of a))])
                                        (landmarks_px a)))\<rparr>"

text \<open>The number a string of decimal digits denotes; it inverts \<open>fmt_04d\<close>.\<close>

definition nat_of_str :: "string \<Rightarrow> nat" where
  "nat_of_str s = fold (\<lambda>c n. 10 * n + (of_char c - 48)) s 0"

text \<open>Block \<open>i\<close> of a list cut into consecutive blocks of \<open>cap\<close> elements.\<close>

definition chunk :: "nat \<Rightarrow> 'a list \<Rightarrow> nat \<Rightarrow> 'a list" where
  "chunk cap rs i = take cap (drop (i * cap) rs)"

text \<open>
  The loop invariant for a positive shard size \<open>cap\<close>, after the records \<open>recs\<close> have
  been written: the counters are quotient and remainder of the number of records, a
  writer is open exactly inside a shard, and shard file \<open>i\<close> exists exactly when block
  \<open>i\<close> is not empty and then holds that block.
\<close>

definition shard_inv :: "nat \<Rightarrow> string \<Rightarrow> example list \<Rightarrow> loop_state \<Rightarrow> bool" where
  "shard_inv cap out recs st \<longleftrightarrow>
     shard_id st = length recs div cap \<and>
     num_examples_written st = int (length recs mod cap) \<and>
     writer st = (if length recs mod cap = 0 then None
                  else Some (shard_path out (length recs div cap))) \<and>
     (\<forall>i. files st (shard_path out i) =
            (if i * cap < length recs then Some (chunk cap recs i) else None)) \<and>
     dom (files st) \<subseteq> range (shard_path out)"

text \<open>The weaker invariant that holds for every shard size: a started shard has an open writer.\<close>

definition writer_ok :: "loop_state \<Rightarrow> bool" where
  "writer_ok st \<longleftrightarrow> (num_examples_written st \<noteq> 0 \<longrightarrow> writer st \<noteq> None)"

text \<open>The records of the entries that validate, in the order of the entries.\<close>

definition records_of :: "world \<Rightarrow> args \<Rightarrow> string list \<Rightarrow> example list" where
  "records_of w a l =
     concat (map (\<lambda>x. case load_and_convert w a x of Inl _ \<Rightarrow> [] | Inr ex \<Rightarrow> [ex]) l)"

text \<open>The paths of the files in the output directory, and the records in shard \<open>i\<close>.\<close>

definition shard_files :: "world \<Rightarrow> string set" where
  "shard_files w = (case out_dir w of None \<Rightarrow> {} | Some fs \<Rightarrow> dom fs)"

definition shard_contents :: "world \<Rightarrow> args \<Rightarrow> nat \<Rightarrow> example list" where
  "shard_contents w a i =
     (case out_dir w of
        None \<Rightarrow> []
      | Some fs \<Rightarrow> (case fs (shard_path (output_arg a) i) of None \<Rightarrow> [] | Some rs \<Rightarrow> rs))"

text \<open>
  The sizes of the first \<open>k\<close> shards, and the number of shards needed for \<open>n\<close> records
  at \<open>cap\<close> records per shard, that is \<open>n / cap\<close> rounded up.
\<close>

definition shard_sizes :: "world \<Rightarrow> args \<Rightarrow> nat \<Rightarrow> nat list" where
  "shard_sizes w a k = map (\<lambda>i. length (shard_contents w a i)) [0..<k]"

definition shards_used :: "nat \<Rightarrow> nat \<Rightarrow> nat" where
  "shards_used n cap = (n + cap - 1) div cap"

text \<open>The shard size \<^verbatim>\<open>main\<close> computes on line 140 for a run, as a natural number.\<close>

definition capacity :: "args \<Rightarrow> string list \<Rightarrow> nat" where
  "capacity a l = nat (shard_size_of (int (length l)) (num_shards a))"

section \<open>Concrete scenarios\<close>

text \<open>
  The annotation of the specification's scenario, and a world in which its image
  \<^verbatim>\<open>images/1.jpg\<close> is a 400 by 500 RGB JPEG and every annotation file holds that
  annotation.
\<close>

definition scenario_annotation :: annotation where
  "scenario_annotation =
     \<lparr>filename = ''1.jpg'',
      box = \<lparr>b_xmin = 100, b_ymin = 50, b_xmax = 300, b_ymax = 250\<rparr>,
      landmarks_px = [(150, 100), (250, 100), (200, 150), (160, 200), (240, 200)],
      size_of = \<lparr>width = 400, height = 500, depth = 3\<rparr>\<rparr>"

definition scenario_world :: world where
  "scenario_world =
     \<lparr>gfile_read = (\<lambda>p. if p = ''images/1.jpg'' then Some ''jpeg-bytes'' else None),
      pil_open = (\<lambda>bs. if bs = ''jpeg-bytes''
                        then Some \<lparr>format = ''JPEG'', mode = ''RGB'', size0 = 400, size1 = 500\<rparr>
                        else None),
      json_load = (\<lambda>p. Some scenario_annotation),
      deletable = True,
      out_dir = None\<rparr>"

text \<open>
  The record of the scenario. \<open>0.25\<close>, \<open>0.75\<close>, \<open>0.5\<close>, \<open>0.375\<close> and \<open>0.625\<close> are
  numbers of the single-precision format; the other entries are the numbers of the
  format nearest to \<open>0.1\<close>, \<open>0.2\<close>, \<open>0.3\<close>, \<open>0.4\<close> and \<open>0.6\<close>.
\<close>

definition scenario_example :: example where
  "scenario_example =
     \<lparr>image_bytes = ''jpeg-bytes'', xmin = 1 / 4, xmax = 3 / 4,
      ymin = 13421773 / 134217728, ymax = 1 / 2,
      landmarks = [13421773 / 67108864, 3 / 8, 13421773 / 67108864, 5 / 8,
                   5033165 / 16777216, 1 / 2, 13421773 / 33554432, 13421773 / 33554432,
                   13421773 / 33554432, 5033165 / 8388608]\<rparr>"

definition scenario_args :: args where
  "scenario_args =
     \<lparr>image_dir = ''images'', annotations_dir = ''annotations'', output_arg = ''out'',
      num_shards = 3\<rparr>"

text \<open>Variants of the scenario annotation.\<close>

definition inverted_annotation :: annotation where
  "inverted_annotation =
     scenario_annotation\<lparr>box := \<lparr>b_xmin = 300, b_ymin = 50, b_xmax = 100, b_ymax = 250\<rparr>\<rparr>"

definition oversize_annotation :: annotation where
  "oversize_annotation =
     scenario_annotation\<lparr>box := \<lparr>b_xmin = 100, b_ymin = 50, b_xmax = 500, b_ymax = 250\<rparr>\<rparr>"

definition outside_annotation :: annotation where
  "outside_annotation =
     scenario_annotation\<lparr>landmarks_px := [(150, 100), (350, 100)]\<rparr>"

definition three_annotation :: annotation where
  "three_annotation =
     scenario_annotation\<lparr>landmarks_px := [(150, 100), (250, 100), (200, 150)]\<rparr>"

text \<open>Landmarks on two corners of the box.\<close>

definition corner_annotation :: annotation where
  "corner_annotation =
     scenario_annotation\<lparr>landmarks_px := [(100, 50), (300, 250)]\<rparr>"

text \<open>A box one millionth of a pixel wide, and no landmarks.\<close>

definition sliver_annotation :: annotation where
  "sliver_annotation =
     scenario_annotation\<lparr>box := \<lparr>b_xmin = 100, b_ymin = 50, b_xmax = 100.000001, b_ymax = 250\<rparr>,
                         landmarks_px := []\<rparr>"

text \<open>
  A box whose pixel bounds differ, though the doubles of their quotients by the width do
  not; and a landmark on the double next above \<open>box.xmax = 220\<close>, whose quotient by the
  width is the double of \<open>220 / 400\<close>.
\<close>

definition tie_annotation :: annotation where
  "tie_annotation =
     scenario_annotation\<lparr>box := \<lparr>b_xmin = 100.00000000000001, b_ymin = 50,
                                  b_xmax = 100.00000000000003, b_ymax = 250\<rparr>,
                         landmarks_px := []\<rparr>"

definition edge_annotation :: annotation where
  "edge_annotation =
     scenario_annotation\<lparr>box := \<lparr>b_xmin = 100, b_ymin = 50, b_xmax = 220, b_ymax = 250\<rparr>,
                         landmarks_px := [(7740561859543041 / 35184372088832, 100)]\<rparr>"

definition missing_annotation :: annotation where
  "missing_annotation = scenario_annotation\<lparr>filename := ''2.jpg''\<rparr>"

definition ten_entries :: "string list" where
  "ten_entries = [''0.json'', ''1.json'', ''2.json'', ''3.json'', ''4.json'',
                  ''5.json'', ''6.json'', ''7.json'', ''8.json'', ''9.json'']"

text \<open>
  A world that differs from the scenario world everywhere except in the image file
  \<^verbatim>\<open>images/1.jpg\<close> and the decoder.
\<close>

definition other_world :: world where
  "other_world =
     \<lparr>gfile_read = (\<lambda>p. if p = ''images/1.jpg'' then Some ''jpeg-bytes'' else Some ''noise''),
      pil_open = pil_open scenario_world,
      json_load = (\<lambda>p. None),
      deletable = False,
      out_dir = Some Map.empty\<rparr>"

text \<open>
  The scenario world with two faulty annotation files: \<^verbatim>\<open>bad.json\<close> has an inverted
  box, \<^verbatim>\<open>missing.json\<close> names an image that does not exist.
\<close>

definition mixed_world :: world where
  "mixed_world =
     scenario_world\<lparr>json_load :=
       (\<lambda>p. if p = ''annotations/bad.json'' then Some inverted_annotation
            else if p = ''annotations/missing.json'' then Some missing_annotation
            else Some scenario_annotation)\<rparr>"

text \<open>The scenario arguments with two requested shards.\<close>

definition two_shard_args :: args where
  "two_shard_args = scenario_args\<lparr>num_shards := 2\<rparr>"

section \<open>Auxiliary lemmas\<close>

subsection \<open>Rounding\<close>

lemma pow2_pos: "0 < pow2 e"
  by (simp add: pow2_def)

lemma pow2_add: "pow2 (a + b) = pow2 a * pow2 b"
  by (simp add: pow2_def powr_add)

lemma pow2_le_iff: "pow2 a \<le> pow2 b \<longleftrightarrow> a \<le> b"
  by (simp add: pow2_def)

lemma pow2_less_iff: "pow2 a < pow2 b \<longleftrightarrow> a < b"
  by (simp add: pow2_def)

lemma pow2_0: "pow2 0 = 1"
  by (simp add: pow2_def)

lemma pow2_nat: "pow2 (int n) = 2 ^ n"
  by (simp add: pow2_def powr_realpow)

lemma pow2_of_int: "0 \<le> e \<Longrightarrow> pow2 e = of_int (2 ^ nat e)"
  using pow2_nat [of "nat e"] by simp

lemma pow2_neg_nat: "pow2 (- int n) = 1 / 2 ^ n"
  by (simp add: pow2_def powr_minus powr_realpow divide_inverse)

lemma pow2_diff: "pow2 (a - b) = pow2 a / pow2 b"
  by (simp add: pow2_def powr_diff)

lemma exp_bounds:
  assumes "0 < x"
  shows "pow2 \<lfloor>log 2 x\<rfloor> \<le> x" and "x < pow2 (\<lfloor>log 2 x\<rfloor> + 1)"
  using floor_log_eq_powr_iff [of x 2 "\<lfloor>log 2 x\<rfloor>"] assms
  by (simp_all add: pow2_def)

lemma exp_eqI:
  assumes "pow2 k \<le> x" and "x < pow2 (k + 1)"
  shows "\<lfloor>log 2 x\<rfloor> = k"
proof -
  have "0 < x" using assms(1) pow2_pos [of k] by linarith
  then show ?thesis
    using floor_log_eq_powr_iff [of x 2 k] assms by (simp add: pow2_def)
qed

lemma round_half_even_of_int: "round_half_even (of_int n) = n"
  by (simp add: round_half_even_def)

lemma round_half_even_range:
  "\<lfloor>x\<rfloor> \<le> round_half_even x" "round_half_even x \<le> \<lfloor>x\<rfloor> + 1"
  by (simp_all add: round_half_even_def Let_def)

lemma round_half_even_mono:
  assumes "x \<le> y"
  shows "round_half_even x \<le> round_half_even y"
proof (cases "\<lfloor>x\<rfloor> = \<lfloor>y\<rfloor>")
  case True
  then show ?thesis
    using assms by (auto simp add: round_half_even_def Let_def)
next
  case False
  then have "\<lfloor>x\<rfloor> < \<lfloor>y\<rfloor>"
    using floor_mono [OF assms] by linarith
  then show ?thesis
    using round_half_even_range(2) [of x] round_half_even_range(1) [of y] by linarith
qed

lemma round_half_even_nonneg: "0 \<le> x \<Longrightarrow> 0 \<le> round_half_even x"
  using round_half_even_mono [of 0 x] round_half_even_of_int [of 0] by simp

lemma round_half_even_error: "\<bar>of_int (round_half_even x) - x\<bar> \<le> 1 / 2"
  by (auto simp add: round_half_even_def Let_def abs_le_iff)


lemma fl_0: "fl p emin 0 = 0"
  by (simp add: fl_def)

lemma fl_minus: "fl p emin (- x) = - fl p emin x"
  by (simp add: fl_def ulp_exp_def sgn_minus)

lemma fl_pos:
  "0 < x \<Longrightarrow>
     fl p emin x = of_int (round_half_even (x / pow2 (ulp_exp p emin x))) * pow2 (ulp_exp p emin x)"
  by (simp add: fl_def)

lemma fl_nonneg:
  assumes "0 \<le> x"
  shows "0 \<le> fl p emin x"
proof (cases "x = 0")
  case True
  then show ?thesis by (simp add: fl_0)
next
  case False
  then have x: "0 < x" using assms by simp
  have "0 \<le> x / pow2 (ulp_exp p emin x)"
    using x pow2_pos [of "ulp_exp p emin x"] by simp
  then have "0 \<le> round_half_even (x / pow2 (ulp_exp p emin x))"
    by (rule round_half_even_nonneg)
  then show ?thesis
    using pow2_pos [of "ulp_exp p emin x"] by (simp add: fl_pos [OF x])
qed

lemma ulp_exp_mono:
  assumes "0 < x" and "x \<le> y"
  shows "ulp_exp p emin x \<le> ulp_exp p emin y"
proof -
  have "log 2 x \<le> log 2 y" using assms by simp
  then have "\<lfloor>log 2 x\<rfloor> \<le> \<lfloor>log 2 y\<rfloor>" by (rule floor_mono)
  then show ?thesis using assms by (simp add: ulp_exp_def)
qed

lemma fl_lower:
  assumes y: "0 < y" and k: "emin \<le> \<lfloor>log 2 y\<rfloor>" and p: "1 \<le> p"
  shows "pow2 \<lfloor>log 2 y\<rfloor> \<le> fl p emin y"
proof -
  define k where "k = \<lfloor>log 2 y\<rfloor>"
  define e where "e = k - int p + 1"
  have e: "ulp_exp p emin y = e"
    using k y by (simp add: ulp_exp_def e_def k_def)
  have ke: "k = (int p - 1) + e" by (simp add: e_def)
  have "pow2 k \<le> y" using exp_bounds(1) [OF y] by (simp add: k_def)
  then have "pow2 (int p - 1) * pow2 e \<le> y"
    using pow2_add [of "int p - 1" e] ke by simp
  then have "pow2 (int p - 1) \<le> y / pow2 e"
    using pow2_pos [of e] by (simp add: pos_le_divide_eq)
  moreover have "pow2 (int p - 1) = of_int (2 ^ nat (int p - 1))"
    using p by (intro pow2_of_int) simp
  ultimately have "of_int (2 ^ nat (int p - 1)) \<le> y / pow2 e" by simp
  then have "round_half_even (of_int (2 ^ nat (int p - 1))) \<le> round_half_even (y / pow2 e)"
    by (rule round_half_even_mono)
  then have "(2 ^ nat (int p - 1) :: int) \<le> round_half_even (y / pow2 e)"
    by (simp only: round_half_even_of_int)
  then have "real_of_int (2 ^ nat (int p - 1)) \<le> of_int (round_half_even (y / pow2 e))"
    by (simp only: of_int_le_iff)
  then have "real_of_int (2 ^ nat (int p - 1)) * pow2 e \<le> of_int (round_half_even (y / pow2 e)) * pow2 e"
    using pow2_pos [of e] by (simp only: mult_le_cancel_right) simp
  moreover have "real_of_int (2 ^ nat (int p - 1)) * pow2 e = pow2 k"
    using \<open>pow2 (int p - 1) = of_int (2 ^ nat (int p - 1))\<close> pow2_add [of "int p - 1" e] ke by simp
  ultimately show ?thesis
    by (simp add: fl_pos [OF y] e k_def)
qed

lemma fl_upper:
  assumes x: "0 < x"
  shows "fl p emin x \<le> pow2 (max \<lfloor>log 2 x\<rfloor> emin + 1)"
proof -
  define K where "K = max \<lfloor>log 2 x\<rfloor> emin"
  define e where "e = K - int p + 1"
  have e: "ulp_exp p emin x = e"
    using x by (simp add: ulp_exp_def e_def K_def)
  have Ke: "K + 1 = int p + e" by (simp add: e_def)
  have "x < pow2 (\<lfloor>log 2 x\<rfloor> + 1)" using exp_bounds(2) [OF x] .
  moreover have "pow2 (\<lfloor>log 2 x\<rfloor> + 1) \<le> pow2 (K + 1)"
    by (simp add: pow2_le_iff K_def)
  ultimately have "x \<le> pow2 (int p) * pow2 e"
    using pow2_add [of "int p" e] Ke by simp
  then have "x / pow2 e \<le> pow2 (int p)"
    using pow2_pos [of e] by (simp add: pos_divide_le_eq)
  moreover have pp: "pow2 (int p) = of_int (2 ^ p)"
    using pow2_of_int [of "int p"] by simp
  ultimately have "x / pow2 e \<le> of_int (2 ^ p)" by simp
  then have "round_half_even (x / pow2 e) \<le> round_half_even (of_int (2 ^ p))"
    by (rule round_half_even_mono)
  then have "round_half_even (x / pow2 e) \<le> 2 ^ p"
    by (simp only: round_half_even_of_int)
  then have "real_of_int (round_half_even (x / pow2 e)) \<le> of_int (2 ^ p)"
    by (simp only: of_int_le_iff)
  then have "real_of_int (round_half_even (x / pow2 e)) * pow2 e \<le> of_int (2 ^ p) * pow2 e"
    using pow2_pos [of e] by (simp only: mult_le_cancel_right) simp
  moreover have "real_of_int (2 ^ p) * pow2 e = pow2 (K + 1)"
    using pp pow2_add [of "int p" e] Ke by simp
  ultimately show ?thesis
    by (simp add: fl_pos [OF x] e K_def)
qed

lemma fl_mono_pos:
  assumes x: "0 < x" and xy: "x \<le> y" and p: "1 \<le> p"
  shows "fl p emin x \<le> fl p emin y"
proof -
  have y: "0 < y" using x xy by linarith
  have le: "ulp_exp p emin x \<le> ulp_exp p emin y"
    using x xy by (rule ulp_exp_mono)
  show ?thesis
  proof (cases "ulp_exp p emin x = ulp_exp p emin y")
    case True
    define e where "e = ulp_exp p emin y"
    have "x / pow2 e \<le> y / pow2 e"
      using xy pow2_pos [of e] by (simp add: divide_le_cancel)
    then have "round_half_even (x / pow2 e) \<le> round_half_even (y / pow2 e)"
      by (rule round_half_even_mono)
    then have "real_of_int (round_half_even (x / pow2 e)) \<le> of_int (round_half_even (y / pow2 e))"
      by (simp only: of_int_le_iff)
    then have "real_of_int (round_half_even (x / pow2 e)) * pow2 e
                 \<le> of_int (round_half_even (y / pow2 e)) * pow2 e"
      using pow2_pos [of e] by (simp only: mult_le_cancel_right) simp
    then show ?thesis
      using True by (simp add: fl_pos [OF x] fl_pos [OF y] e_def)
  next
    case False
    then have lt: "ulp_exp p emin x < ulp_exp p emin y" using le by simp
    then have "max \<lfloor>log 2 x\<rfloor> emin < max \<lfloor>log 2 y\<rfloor> emin"
      using x y unfolding ulp_exp_def by (simp only: abs_of_pos)
    then have ky: "emin \<le> \<lfloor>log 2 y\<rfloor>" and kk: "max \<lfloor>log 2 x\<rfloor> emin + 1 \<le> \<lfloor>log 2 y\<rfloor>"
      unfolding max_def by (simp_all split: if_splits)
    have "fl p emin x \<le> pow2 (max \<lfloor>log 2 x\<rfloor> emin + 1)"
      using x by (rule fl_upper)
    also have "\<dots> \<le> pow2 \<lfloor>log 2 y\<rfloor>"
      using kk by (simp only: pow2_le_iff)
    also have "\<dots> \<le> fl p emin y"
      using y ky p by (rule fl_lower)
    finally show ?thesis .
  qed
qed

lemma fl_mono:
  assumes xy: "x \<le> y" and p: "1 \<le> p"
  shows "fl p emin x \<le> fl p emin y"
proof -
  consider "0 < x" | "x \<le> 0" "0 \<le> y" | "y < 0" using xy by linarith
  then show ?thesis
  proof cases
    case 1
    then show ?thesis using xy p by (rule fl_mono_pos)
  next
    case 2
    have "0 \<le> fl p emin (- x)" using 2(1) by (intro fl_nonneg) simp
    then have "fl p emin x \<le> 0" by (simp add: fl_minus)
    moreover have "0 \<le> fl p emin y" using 2(2) by (rule fl_nonneg)
    ultimately show ?thesis by linarith
  next
    case 3
    have "fl p emin (- y) \<le> fl p emin (- x)"
      using 3 xy p by (intro fl_mono_pos) simp_all
    then show ?thesis by (simp add: fl_minus)
  qed
qed

lemma fl_fix_pos:
  assumes m: "0 < m" "m < 2 ^ p" and e: "emin - int p + 1 \<le> e"
  shows "fl p emin (of_int m * pow2 e) = of_int m * pow2 e"
proof -
  define x where "x = real_of_int m * pow2 e"
  have x: "0 < x" using m(1) pow2_pos [of e] by (simp add: x_def)
  define e0 where "e0 = ulp_exp p emin x"
  have "real_of_int m < of_int (2 ^ p)" using m(2) by (simp only: of_int_less_iff)
  then have "real_of_int m < pow2 (int p)" using pow2_of_int [of "int p"] by simp
  then have "x < pow2 (int p) * pow2 e"
    using pow2_pos [of e] by (simp add: x_def)
  then have xlt: "x < pow2 (int p + e)" by (simp add: pow2_add)
  have "pow2 \<lfloor>log 2 x\<rfloor> \<le> x" using exp_bounds(1) [OF x] .
  then have "pow2 \<lfloor>log 2 x\<rfloor> < pow2 (int p + e)" using xlt by linarith
  then have "\<lfloor>log 2 x\<rfloor> < int p + e" by (simp only: pow2_less_iff)
  then have le: "e0 \<le> e"
    using e x by (simp add: e0_def ulp_exp_def)
  then have d: "e = (e - e0) + e0" "0 \<le> e - e0" by simp_all
  have "pow2 e = pow2 (e - e0) * pow2 e0"
    using pow2_add [of "e - e0" e0] by simp
  also have "pow2 (e - e0) = of_int (2 ^ nat (e - e0))"
    using d(2) by (rule pow2_of_int)
  finally have pe: "pow2 e = real_of_int (2 ^ nat (e - e0)) * pow2 e0" .
  have "x / pow2 e0 = real_of_int m * real_of_int (2 ^ nat (e - e0))"
    using pow2_pos [of e0] by (simp add: x_def pe)
  also have "\<dots> = of_int (m * 2 ^ nat (e - e0))" by simp
  finally have "round_half_even (x / pow2 e0) = m * 2 ^ nat (e - e0)"
    by (simp only: round_half_even_of_int)
  then have "fl p emin x = of_int (m * 2 ^ nat (e - e0)) * pow2 e0"
    by (simp add: fl_pos [OF x] e0_def)
  also have "\<dots> = x"
    by (simp add: x_def pe)
  finally show ?thesis by (simp add: x_def)
qed

lemma fl_fix:
  assumes m: "\<bar>m\<bar> < 2 ^ p" and e: "emin - int p + 1 \<le> e"
  shows "fl p emin (of_int m * pow2 e) = of_int m * pow2 e"
proof -
  consider "m = 0" | "0 < m" | "m < 0" by linarith
  then show ?thesis
  proof cases
    case 1
    then show ?thesis by (simp add: fl_0)
  next
    case 2
    then show ?thesis using m e by (intro fl_fix_pos) simp_all
  next
    case 3
    then have "fl p emin (of_int (- m) * pow2 e) = of_int (- m) * pow2 e"
      using m e by (intro fl_fix_pos) simp_all
    then have "fl p emin (- (of_int m * pow2 e)) = - (of_int m * pow2 e)" by simp
    then show ?thesis by (simp only: fl_minus neg_equal_iff_equal)
  qed
qed

lemma fl_eval:
  assumes lo: "pow2 k \<le> x" and hi: "x < pow2 (k + 1)" and k: "emin \<le> k"
  shows "fl p emin x
           = of_int (round_half_even (x / pow2 (k - int p + 1))) * pow2 (k - int p + 1)"
proof -
  have x: "0 < x" using lo pow2_pos [of k] by linarith
  have "\<lfloor>log 2 x\<rfloor> = k" using lo hi by (rule exp_eqI)
  then have "ulp_exp p emin x = k - int p + 1"
    using k x by (simp add: ulp_exp_def)
  then show ?thesis by (simp add: fl_pos [OF x])
qed

lemma pow2_numeral: "pow2 (numeral n) = 2 ^ numeral n"
  using pow2_nat [of "numeral n"] by simp

lemma pow2_neg_numeral: "pow2 (- numeral n) = 1 / 2 ^ numeral n"
  using pow2_neg_nat [of "numeral n"] by simp

lemma fl64_mono: "x \<le> y \<Longrightarrow> fl64 x \<le> fl64 y"
  unfolding fl64_def by (rule fl_mono) simp_all

lemma fl32_mono: "x \<le> y \<Longrightarrow> fl32 x \<le> fl32 y"
  unfolding fl32_def by (rule fl_mono) simp_all

lemma fl64_nonneg: "0 \<le> x \<Longrightarrow> 0 \<le> fl64 x"
  unfolding fl64_def by (rule fl_nonneg)

lemma fl32_nonneg: "0 \<le> x \<Longrightarrow> 0 \<le> fl32 x"
  unfolding fl32_def by (rule fl_nonneg)

lemma fl64_dyadic:
  assumes "\<bar>m\<bar> < 2 ^ 53" and "k \<le> 1074"
  shows "fl64 (of_int m / 2 ^ k) = of_int m / 2 ^ k"
proof -
  have "fl 53 (- 1022) (of_int m * pow2 (- int k)) = of_int m * pow2 (- int k)"
    using assms by (intro fl_fix) simp_all
  then show ?thesis by (simp add: fl64_def pow2_neg_nat)
qed

lemma fl32_dyadic:
  assumes "\<bar>m\<bar> < 2 ^ 24" and "k \<le> 149"
  shows "fl32 (of_int m / 2 ^ k) = of_int m / 2 ^ k"
proof -
  have "fl 24 (- 126) (of_int m * pow2 (- int k)) = of_int m * pow2 (- int k)"
    using assms by (intro fl_fix) simp_all
  then show ?thesis by (simp add: fl32_def pow2_neg_nat)
qed

lemma fl64_of_int: "\<bar>m\<bar> < 2 ^ 53 \<Longrightarrow> fl64 (of_int m) = of_int m"
  using fl64_dyadic [of m 0] by simp

lemma fl32_of_int: "\<bar>m\<bar> < 2 ^ 24 \<Longrightarrow> fl32 (of_int m) = of_int m"
  using fl32_dyadic [of m 0] by simp


lemma pow2_1: "pow2 1 = 2"
  using pow2_nat [of 1] by simp

lemma pow2_m1: "pow2 (- 1) = 1 / 2"
  using pow2_neg_nat [of 1] by simp

lemmas pow2_simps = pow2_numeral pow2_neg_numeral pow2_0 pow2_1 pow2_m1

lemma py_float_mono: "x \<le> y \<Longrightarrow> py_float x \<le> py_float y"
  unfolding py_float_def by (rule fl64_mono)

lemma truediv_mono: "0 < n \<Longrightarrow> x \<le> y \<Longrightarrow> truediv x n \<le> truediv y n"
  unfolding truediv_def by (intro fl64_mono) (simp add: divide_right_mono)

lemma fl64_1: "fl64 1 = 1"
  using fl64_of_int [of 1] by simp

lemma fl32_1: "fl32 1 = 1"
  using fl32_of_int [of 1] by simp

lemma fl64_0: "fl64 0 = 0"
  by (simp add: fl64_def fl_0)

lemma fl32_0: "fl32 0 = 0"
  by (simp add: fl32_def fl_0)

subsection \<open>Values of the scenarios\<close>

lemma fl64_numeral:
  "(numeral n :: int) < 2 ^ 53 \<Longrightarrow> fl64 (numeral n) = numeral n"
  using fl64_of_int [of "numeral n"] by simp

lemma fl64_1_2: "fl64 (1 / 2) = 1 / 2"
  using fl64_dyadic [of 1 1] by simp

lemma fl32_1_2: "fl32 (1 / 2) = 1 / 2"
  using fl32_dyadic [of 1 1] by simp

lemma fl64_1_4: "fl64 (1 / 4) = 1 / 4"
  using fl64_dyadic [of 1 2] by simp

lemma fl32_1_4: "fl32 (1 / 4) = 1 / 4"
  using fl32_dyadic [of 1 2] by simp

lemma fl64_3_4: "fl64 (3 / 4) = 3 / 4"
  using fl64_dyadic [of 3 2] by simp

lemma fl32_3_4: "fl32 (3 / 4) = 3 / 4"
  using fl32_dyadic [of 3 2] by simp

lemma fl64_3_8: "fl64 (3 / 8) = 3 / 8"
  using fl64_dyadic [of 3 3] by simp

lemma fl32_3_8: "fl32 (3 / 8) = 3 / 8"
  using fl32_dyadic [of 3 3] by simp

lemma fl64_5_8: "fl64 (5 / 8) = 5 / 8"
  using fl64_dyadic [of 5 3] by simp

lemma fl32_5_8: "fl32 (5 / 8) = 5 / 8"
  using fl32_dyadic [of 5 3] by simp

lemma fl64_5_4: "fl64 (5 / 4) = 5 / 4"
  using fl64_dyadic [of 5 2] by simp

lemma fl32_5_4: "fl32 (5 / 4) = 5 / 4"
  using fl32_dyadic [of 5 2] by simp

lemma fl64_7_8: "fl64 (7 / 8) = 7 / 8"
  using fl64_dyadic [of 7 3] by simp

lemma fl32_7_8: "fl32 (7 / 8) = 7 / 8"
  using fl32_dyadic [of 7 3] by simp

lemma fl64_1_10: "fl64 (1 / 10) = 3602879701896397 / 36028797018963968"
proof -
  have "fl 53 (- 1022) (1 / 10)
          = of_int (round_half_even ((1 / 10) / pow2 (- 4 - int 53 + 1))) * pow2 (- 4 - int 53 + 1)"
    by (rule fl_eval) (simp_all add: pow2_simps)
  also have "- 4 - int 53 + 1 = (- 56 :: int)" by simp
  also have "round_half_even ((1 / 10) / pow2 (- 56)) = 7205759403792794"
    by (simp add: pow2_simps round_half_even_def Let_def)
  finally show ?thesis by (simp add: fl64_def pow2_simps)
qed

lemma fl32_1_10: "fl32 (3602879701896397 / 36028797018963968) = 13421773 / 134217728"
proof -
  have "fl 24 (- 126) (3602879701896397 / 36028797018963968)
          = of_int (round_half_even ((3602879701896397 / 36028797018963968) / pow2 (- 4 - int 24 + 1))) * pow2 (- 4 - int 24 + 1)"
    by (rule fl_eval) (simp_all add: pow2_simps)
  also have "- 4 - int 24 + 1 = (- 27 :: int)" by simp
  also have "round_half_even ((3602879701896397 / 36028797018963968) / pow2 (- 27)) = 13421773"
    by (simp add: pow2_simps round_half_even_def Let_def)
  finally show ?thesis by (simp add: fl32_def pow2_simps)
qed

lemma fl64_1_5: "fl64 (1 / 5) = 3602879701896397 / 18014398509481984"
proof -
  have "fl 53 (- 1022) (1 / 5)
          = of_int (round_half_even ((1 / 5) / pow2 (- 3 - int 53 + 1))) * pow2 (- 3 - int 53 + 1)"
    by (rule fl_eval) (simp_all add: pow2_simps)
  also have "- 3 - int 53 + 1 = (- 55 :: int)" by simp
  also have "round_half_even ((1 / 5) / pow2 (- 55)) = 7205759403792794"
    by (simp add: pow2_simps round_half_even_def Let_def)
  finally show ?thesis by (simp add: fl64_def pow2_simps)
qed

lemma fl32_1_5: "fl32 (3602879701896397 / 18014398509481984) = 13421773 / 67108864"
proof -
  have "fl 24 (- 126) (3602879701896397 / 18014398509481984)
          = of_int (round_half_even ((3602879701896397 / 18014398509481984) / pow2 (- 3 - int 24 + 1))) * pow2 (- 3 - int 24 + 1)"
    by (rule fl_eval) (simp_all add: pow2_simps)
  also have "- 3 - int 24 + 1 = (- 26 :: int)" by simp
  also have "round_half_even ((3602879701896397 / 18014398509481984) / pow2 (- 26)) = 13421773"
    by (simp add: pow2_simps round_half_even_def Let_def)
  finally show ?thesis by (simp add: fl32_def pow2_simps)
qed

lemma fl64_3_10: "fl64 (3 / 10) = 5404319552844595 / 18014398509481984"
proof -
  have "fl 53 (- 1022) (3 / 10)
          = of_int (round_half_even ((3 / 10) / pow2 (- 2 - int 53 + 1))) * pow2 (- 2 - int 53 + 1)"
    by (rule fl_eval) (simp_all add: pow2_simps)
  also have "- 2 - int 53 + 1 = (- 54 :: int)" by simp
  also have "round_half_even ((3 / 10) / pow2 (- 54)) = 5404319552844595"
    by (simp add: pow2_simps round_half_even_def Let_def)
  finally show ?thesis by (simp add: fl64_def pow2_simps)
qed

lemma fl32_3_10: "fl32 (5404319552844595 / 18014398509481984) = 5033165 / 16777216"
proof -
  have "fl 24 (- 126) (5404319552844595 / 18014398509481984)
          = of_int (round_half_even ((5404319552844595 / 18014398509481984) / pow2 (- 2 - int 24 + 1))) * pow2 (- 2 - int 24 + 1)"
    by (rule fl_eval) (simp_all add: pow2_simps)
  also have "- 2 - int 24 + 1 = (- 25 :: int)" by simp
  also have "round_half_even ((5404319552844595 / 18014398509481984) / pow2 (- 25)) = 10066330"
    by (simp add: pow2_simps round_half_even_def Let_def)
  finally show ?thesis by (simp add: fl32_def pow2_simps)
qed

lemma fl64_2_5: "fl64 (2 / 5) = 3602879701896397 / 9007199254740992"
proof -
  have "fl 53 (- 1022) (2 / 5)
          = of_int (round_half_even ((2 / 5) / pow2 (- 2 - int 53 + 1))) * pow2 (- 2 - int 53 + 1)"
    by (rule fl_eval) (simp_all add: pow2_simps)
  also have "- 2 - int 53 + 1 = (- 54 :: int)" by simp
  also have "round_half_even ((2 / 5) / pow2 (- 54)) = 7205759403792794"
    by (simp add: pow2_simps round_half_even_def Let_def)
  finally show ?thesis by (simp add: fl64_def pow2_simps)
qed

lemma fl32_2_5: "fl32 (3602879701896397 / 9007199254740992) = 13421773 / 33554432"
proof -
  have "fl 24 (- 126) (3602879701896397 / 9007199254740992)
          = of_int (round_half_even ((3602879701896397 / 9007199254740992) / pow2 (- 2 - int 24 + 1))) * pow2 (- 2 - int 24 + 1)"
    by (rule fl_eval) (simp_all add: pow2_simps)
  also have "- 2 - int 24 + 1 = (- 25 :: int)" by simp
  also have "round_half_even ((3602879701896397 / 9007199254740992) / pow2 (- 25)) = 13421773"
    by (simp add: pow2_simps round_half_even_def Let_def)
  finally show ?thesis by (simp add: fl32_def pow2_simps)
qed

lemma fl64_3_5: "fl64 (3 / 5) = 5404319552844595 / 9007199254740992"
proof -
  have "fl 53 (- 1022) (3 / 5)
          = of_int (round_half_even ((3 / 5) / pow2 (- 1 - int 53 + 1))) * pow2 (- 1 - int 53 + 1)"
    by (rule fl_eval) (simp_all add: pow2_simps)
  also have "- 1 - int 53 + 1 = (- 53 :: int)" by simp
  also have "round_half_even ((3 / 5) / pow2 (- 53)) = 5404319552844595"
    by (simp add: pow2_simps round_half_even_def Let_def)
  finally show ?thesis by (simp add: fl64_def pow2_simps)
qed

lemma fl32_3_5: "fl32 (5404319552844595 / 9007199254740992) = 5033165 / 8388608"
proof -
  have "fl 24 (- 126) (5404319552844595 / 9007199254740992)
          = of_int (round_half_even ((5404319552844595 / 9007199254740992) / pow2 (- 1 - int 24 + 1))) * pow2 (- 1 - int 24 + 1)"
    by (rule fl_eval) (simp_all add: pow2_simps)
  also have "- 1 - int 24 + 1 = (- 24 :: int)" by simp
  also have "round_half_even ((5404319552844595 / 9007199254740992) / pow2 (- 24)) = 10066330"
    by (simp add: pow2_simps round_half_even_def Let_def)
  finally show ?thesis by (simp add: fl32_def pow2_simps)
qed

lemma fl64_sliver: "fl64 (100000001 / 1000000) = 879609311016893 / 8796093022208"
proof -
  have "fl 53 (- 1022) (100000001 / 1000000)
          = of_int (round_half_even ((100000001 / 1000000) / pow2 (6 - int 53 + 1))) * pow2 (6 - int 53 + 1)"
    by (rule fl_eval) (simp_all add: pow2_simps)
  also have "6 - int 53 + 1 = (- 46 :: int)" by simp
  also have "round_half_even ((100000001 / 1000000) / pow2 (- 46)) = 7036874488135144"
    by (simp add: pow2_simps round_half_even_def Let_def)
  finally show ?thesis by (simp add: fl64_def pow2_simps)
qed

lemma fl64_sliver_quotient: "fl64 (879609311016893 / 3518437208883200) = 1125899918101623 / 4503599627370496"
proof -
  have "fl 53 (- 1022) (879609311016893 / 3518437208883200)
          = of_int (round_half_even ((879609311016893 / 3518437208883200) / pow2 (- 2 - int 53 + 1))) * pow2 (- 2 - int 53 + 1)"
    by (rule fl_eval) (simp_all add: pow2_simps)
  also have "- 2 - int 53 + 1 = (- 54 :: int)" by simp
  also have "round_half_even ((879609311016893 / 3518437208883200) / pow2 (- 54)) = 4503599672406492"
    by (simp add: pow2_simps round_half_even_def Let_def)
  finally show ?thesis by (simp add: fl64_def pow2_simps)
qed

lemma fl32_sliver_quotient: "fl32 (1125899918101623 / 4503599627370496) = 1 / 4"
proof -
  have "fl 24 (- 126) (1125899918101623 / 4503599627370496)
          = of_int (round_half_even ((1125899918101623 / 4503599627370496) / pow2 (- 2 - int 24 + 1))) * pow2 (- 2 - int 24 + 1)"
    by (rule fl_eval) (simp_all add: pow2_simps)
  also have "- 2 - int 24 + 1 = (- 25 :: int)" by simp
  also have "round_half_even ((1125899918101623 / 4503599627370496) / pow2 (- 25)) = 8388608"
    by (simp add: pow2_simps round_half_even_def Let_def)
  finally show ?thesis by (simp add: fl32_def pow2_simps)
qed

lemma fl64_tie_xmin: "fl64 (10000000000000001 / 100000000000000) = 7036874417766401 / 70368744177664"
proof -
  have "fl 53 (- 1022) (10000000000000001 / 100000000000000)
          = of_int (round_half_even ((10000000000000001 / 100000000000000) / pow2 (6 - int 53 + 1))) * pow2 (6 - int 53 + 1)"
    by (rule fl_eval) (simp_all add: pow2_simps)
  also have "6 - int 53 + 1 = (- 46 :: int)" by simp
  also have "round_half_even ((10000000000000001 / 100000000000000) / pow2 (- 46)) = 7036874417766401"
    by (simp add: pow2_simps round_half_even_def Let_def)
  finally show ?thesis by (simp add: fl64_def pow2_simps)
qed

lemma fl64_tie_xmin_quotient: "fl64 (7036874417766401 / 28147497671065600) = 4503599627370497 / 18014398509481984"
proof -
  have "fl 53 (- 1022) (7036874417766401 / 28147497671065600)
          = of_int (round_half_even ((7036874417766401 / 28147497671065600) / pow2 (- 2 - int 53 + 1))) * pow2 (- 2 - int 53 + 1)"
    by (rule fl_eval) (simp_all add: pow2_simps)
  also have "- 2 - int 53 + 1 = (- 54 :: int)" by simp
  also have "round_half_even ((7036874417766401 / 28147497671065600) / pow2 (- 54)) = 4503599627370497"
    by (simp add: pow2_simps round_half_even_def Let_def)
  finally show ?thesis by (simp add: fl64_def pow2_simps)
qed

lemma fl64_tie_xmax: "fl64 (10000000000000003 / 100000000000000) = 3518437208883201 / 35184372088832"
proof -
  have "fl 53 (- 1022) (10000000000000003 / 100000000000000)
          = of_int (round_half_even ((10000000000000003 / 100000000000000) / pow2 (6 - int 53 + 1))) * pow2 (6 - int 53 + 1)"
    by (rule fl_eval) (simp_all add: pow2_simps)
  also have "6 - int 53 + 1 = (- 46 :: int)" by simp
  also have "round_half_even ((10000000000000003 / 100000000000000) / pow2 (- 46)) = 7036874417766402"
    by (simp add: pow2_simps round_half_even_def Let_def)
  finally show ?thesis by (simp add: fl64_def pow2_simps)
qed

lemma fl64_tie_xmax_quotient: "fl64 (3518437208883201 / 14073748835532800) = 4503599627370497 / 18014398509481984"
proof -
  have "fl 53 (- 1022) (3518437208883201 / 14073748835532800)
          = of_int (round_half_even ((3518437208883201 / 14073748835532800) / pow2 (- 2 - int 53 + 1))) * pow2 (- 2 - int 53 + 1)"
    by (rule fl_eval) (simp_all add: pow2_simps)
  also have "- 2 - int 53 + 1 = (- 54 :: int)" by simp
  also have "round_half_even ((3518437208883201 / 14073748835532800) / pow2 (- 54)) = 4503599627370497"
    by (simp add: pow2_simps round_half_even_def Let_def)
  finally show ?thesis by (simp add: fl64_def pow2_simps)
qed

lemma fl64_11_20: "fl64 (11 / 20) = 2476979795053773 / 4503599627370496"
proof -
  have "fl 53 (- 1022) (11 / 20)
          = of_int (round_half_even ((11 / 20) / pow2 (- 1 - int 53 + 1))) * pow2 (- 1 - int 53 + 1)"
    by (rule fl_eval) (simp_all add: pow2_simps)
  also have "- 1 - int 53 + 1 = (- 53 :: int)" by simp
  also have "round_half_even ((11 / 20) / pow2 (- 53)) = 4953959590107546"
    by (simp add: pow2_simps round_half_even_def Let_def)
  finally show ?thesis by (simp add: fl64_def pow2_simps)
qed

lemma fl64_edge_quotient: "fl64 (7740561859543041 / 14073748835532800) = 2476979795053773 / 4503599627370496"
proof -
  have "fl 53 (- 1022) (7740561859543041 / 14073748835532800)
          = of_int (round_half_even ((7740561859543041 / 14073748835532800) / pow2 (- 1 - int 53 + 1))) * pow2 (- 1 - int 53 + 1)"
    by (rule fl_eval) (simp_all add: pow2_simps)
  also have "- 1 - int 53 + 1 = (- 53 :: int)" by simp
  also have "round_half_even ((7740561859543041 / 14073748835532800) / pow2 (- 53)) = 4953959590107546"
    by (simp add: pow2_simps round_half_even_def Let_def)
  finally show ?thesis by (simp add: fl64_def pow2_simps)
qed

lemmas float_eval =
  fl64_numeral fl64_1_2 fl32_1_2 fl64_1_4 fl32_1_4
  fl64_3_4 fl32_3_4 fl64_3_8 fl32_3_8 fl64_5_8
  fl32_5_8 fl64_5_4 fl32_5_4 fl64_7_8 fl32_7_8
  fl64_1_10 fl32_1_10 fl64_1_5 fl32_1_5 fl64_3_10
  fl32_3_10 fl64_2_5 fl32_2_5 fl64_3_5 fl32_3_5
  fl64_sliver fl64_sliver_quotient fl32_sliver_quotient
  fl64_tie_xmin fl64_tie_xmin_quotient fl64_tie_xmax fl64_tie_xmax_quotient
  fl64_11_20 fl64_edge_quotient

subsection \<open>The validator\<close>

lemma flatten_landmarks_Inr:
  "flatten_landmarks w h ymn ymx xmn xmx acc lms = Inr out \<Longrightarrow>
     out = acc @ concat (map (\<lambda>(x, y). [truediv y h, truediv x w]) lms) \<and>
     (\<forall>(x, y) \<in> set lms. ymn \<le> truediv y h \<and> truediv y h \<le> ymx \<and>
                           xmn \<le> truediv x w \<and> truediv x w \<le> xmx)"
  by (induction w h ymn ymx xmn xmx acc lms arbitrary: out rule: flatten_landmarks.induct)
     (auto simp: Let_def split: if_splits)

lemma flatten_landmarks_ok:
  "(\<forall>(x, y) \<in> set lms. ymn \<le> truediv y h \<and> truediv y h \<le> ymx \<and>
                           xmn \<le> truediv x w \<and> truediv x w \<le> xmx) \<Longrightarrow>
   flatten_landmarks w h ymn ymx xmn xmx acc lms =
     Inr (acc @ concat (map (\<lambda>(x, y). [truediv y h, truediv x w]) lms))"
  by (induction w h ymn ymx xmn xmx acc lms rule: flatten_landmarks.induct)
     (auto simp: Let_def)

lemma flatten_landmarks_bad:
  "(x, y) \<in> set lms \<Longrightarrow>
   \<not> (ymn \<le> truediv y h \<and> truediv y h \<le> ymx \<and>
      xmn \<le> truediv x w \<and> truediv x w \<le> xmx) \<Longrightarrow>
   \<exists>err. flatten_landmarks w h ymn ymx xmn xmx acc lms = Inl err"
  using flatten_landmarks_Inr[of w h ymn ymx xmn xmx acc lms]
  by (cases "flatten_landmarks w h ymn ymx xmn xmx acc lms") fastforce+

lemma dict_to_tf_example_Inr_iff:
  "dict_to_tf_example e a d = Inr ex \<longleftrightarrow>
     image_checks e a d \<and>
     box_ymin a < box_ymax a \<and>
     box_xmin a < box_xmax a \<and>
     (\<forall>p \<in> set (landmarks_px a). in_box a p) \<and>
     ex = normalized e a d"
  (is "?L \<longleftrightarrow> ?R")
proof
  assume ?L
  then show ?R
    unfolding dict_to_tf_example_def image_checks_def in_box_def normalized_def Let_def
      box_ymin_def box_ymax_def box_xmin_def box_xmax_def float_feature_def
      float_list_feature_def
    by (auto split: if_splits option.splits sum.splits dest!: flatten_landmarks_Inr)
next
  assume ?R
  then show ?L
    unfolding dict_to_tf_example_def image_checks_def in_box_def normalized_def Let_def
      box_ymin_def box_ymax_def box_xmin_def box_xmax_def float_feature_def
      float_list_feature_def
    by (auto simp: flatten_landmarks_ok split: prod.splits option.splits)
qed

lemma flatten_landmarks_Inl:
  "flatten_landmarks w h ymn ymx xmn xmx acc lms = Inl err \<Longrightarrow>
   err = AssertionError 99 \<or> err = AssertionError 100"
  by (induction w h ymn ymx xmn xmx acc lms rule: flatten_landmarks.induct)
     (auto simp: Let_def split: if_splits)

lemma dict_to_tf_example_geometry:
  "image_checks e a d \<Longrightarrow>
   \<not> (box_ymin a < box_ymax a \<and> box_xmin a < box_xmax a) \<Longrightarrow>
   dict_to_tf_example e a d = Inl (AssertionError 92)"
  unfolding dict_to_tf_example_def image_checks_def Let_def
    box_ymin_def box_ymax_def box_xmin_def box_xmax_def
  by (auto split: option.splits)

lemma dict_to_tf_example_landmark:
  "image_checks e a d \<Longrightarrow>
   box_ymin a < box_ymax a \<Longrightarrow>
   box_xmin a < box_xmax a \<Longrightarrow>
   p \<in> set (landmarks_px a) \<Longrightarrow> \<not> in_box a p \<Longrightarrow>
   dict_to_tf_example e a d = Inl (AssertionError 99) \<or>
   dict_to_tf_example e a d = Inl (AssertionError 100)"
proof -
  assume ic: "image_checks e a d"
    and y: "box_ymin a < box_ymax a"
    and x: "box_xmin a < box_xmax a"
    and p: "p \<in> set (landmarks_px a)" "\<not> in_box a p"
  let ?fl = "flatten_landmarks (width (size_of a)) (height (size_of a))
       (box_ymin a) (box_ymax a) (box_xmin a) (box_xmax a) [] (landmarks_px a)"
  obtain px py where pp: "p = (px, py)" by (cases p)
  have mem: "(px, py) \<in> set (landmarks_px a)" using p pp by simp
  have out: "\<not> (box_ymin a \<le> truediv py (height (size_of a)) \<and>
      truediv py (height (size_of a)) \<le> box_ymax a \<and>
      box_xmin a \<le> truediv px (width (size_of a)) \<and>
      truediv px (width (size_of a)) \<le> box_xmax a)"
    using p(2) pp unfolding in_box_def by simp
  from flatten_landmarks_bad[OF mem out] obtain err where e: "?fl = Inl err" by blast
  then have "err = AssertionError 99 \<or> err = AssertionError 100"
    by (rule flatten_landmarks_Inl)
  moreover have "dict_to_tf_example e a d = Inl err"
    using ic x y e unfolding dict_to_tf_example_def image_checks_def Let_def
      box_ymin_def box_ymax_def box_xmin_def box_xmax_def
    by (auto split: option.splits)
  ultimately show ?thesis by auto
qed

lemma box_xmax_le_xmin:
  assumes "0 < width (size_of a)" and "b_xmax (box a) \<le> b_xmin (box a)"
  shows "box_xmax a \<le> box_xmin a"
  unfolding box_xmax_def box_xmin_def
  using assms by (intro truediv_mono py_float_mono)

lemma in_box_pixels:
  assumes "0 < width (size_of a)" and "0 < height (size_of a)"
    and "py_float (b_ymin (box a)) \<le> y" and "y \<le> py_float (b_ymax (box a))"
    and "py_float (b_xmin (box a)) \<le> x" and "x \<le> py_float (b_xmax (box a))"
  shows "in_box a (x, y)"
  unfolding in_box_def box_ymin_def box_ymax_def box_xmin_def box_xmax_def
  using assms by (simp add: truediv_mono)

subsection \<open>Shard names, blocks and the loop\<close>

lemma digit_value: "d < 10 \<Longrightarrow> (of_char (''0123456789'' ! d) :: nat) - 48 = d"
proof -
  assume "d < 10"
  then have "d \<in> {0, 1, 2, 3, 4, 5, 6, 7, 8, 9}" by auto
  then show ?thesis by auto
qed

lemma nat_of_str_snoc: "nat_of_str (s @ [c]) = 10 * nat_of_str s + (of_char c - 48)"
  by (simp add: nat_of_str_def)

lemma nat_of_str_str_nat: "nat_of_str (str_nat n) = n"
proof (induction n rule: str_nat.induct)
  case (1 n)
  show ?case
  proof (cases "n < 10")
    case True
    then show ?thesis
      using digit_value[of n] by (subst str_nat.simps) (simp add: nat_of_str_def)
  next
    case False
    then show ?thesis
      using 1 digit_value[of "n mod 10"]
      by (subst str_nat.simps) (simp add: nat_of_str_snoc del: str_nat.simps)
  qed
qed

lemma nat_of_str_zeros: "nat_of_str (replicate k CHR ''0'' @ s) = nat_of_str s"
proof -
  have "fold (\<lambda>c n. 10 * n + (of_char c - 48)) (replicate k CHR ''0'') (0::nat) = 0"
    by (induction k) simp_all
  then show ?thesis by (simp add: nat_of_str_def)
qed

lemma nat_of_str_fmt_04d: "nat_of_str (fmt_04d n) = n"
  by (simp add: fmt_04d_def nat_of_str_zeros nat_of_str_str_nat del: str_nat.simps)

lemma fmt_04d_inj: "fmt_04d i = fmt_04d j \<Longrightarrow> i = j"
  by (metis nat_of_str_fmt_04d)

lemma shard_path_eq:
  "shard_path out i =
     (if out = [] \<or> last out = CHR ''/'' then out else out @ ''/'') @
     ''shard-'' @ fmt_04d i @ ''.tfrecords''"
  by (simp add: shard_path_def path_join_def)

lemma shard_path_inj: "shard_path out i = shard_path out j \<longleftrightarrow> i = j"
  by (auto simp: shard_path_eq dest: fmt_04d_inj)

lemma chunk_snoc_full:
  "i * cap + cap \<le> length rs \<Longrightarrow> chunk cap (rs @ [x]) i = chunk cap rs i"
  by (simp add: chunk_def)

lemma chunk_snoc_last:
  "0 < cap \<Longrightarrow> chunk cap (rs @ [x]) (length rs div cap) = chunk cap rs (length rs div cap) @ [x]"
proof -
  assume c: "0 < cap"
  let ?j = "length rs div cap"
  have le: "?j * cap \<le> length rs" by simp
  have "length rs - ?j * cap = length rs mod cap"
    by (simp add: minus_div_mult_eq_mod)
  moreover have "length rs mod cap < cap" using c by simp
  ultimately have "length (drop (?j * cap) rs) < cap" by simp
  then show ?thesis using le by (simp add: chunk_def)
qed

lemma chunk_empty: "length rs \<le> i * cap \<Longrightarrow> chunk cap rs i = []"
  by (simp add: chunk_def)

lemma concat_chunks: "concat (map (chunk cap rs) [0..<k]) = take (k * cap) rs"
proof (induction k)
  case 0
  show ?case by simp
next
  case (Suc k)
  have "take (Suc k * cap) rs = take (k * cap + cap) rs" by (simp add: add.commute)
  also have "\<dots> = take (k * cap) rs @ take cap (drop (k * cap) rs)" by (rule take_add)
  finally show ?case using Suc by (simp add: chunk_def)
qed

lemma lt_div_iff: "0 < cap \<Longrightarrow> i < n div cap \<longleftrightarrow> i * cap + cap \<le> (n::nat)"
proof -
  assume c: "0 < cap"
  have "i < n div cap \<longleftrightarrow> Suc i \<le> n div cap" by auto
  also have "\<dots> \<longleftrightarrow> Suc i * cap \<le> n" using c by (simp only: less_eq_div_iff_mult_less_eq)
  finally show ?thesis by (simp add: add.commute)
qed

lemma files_step:
  assumes cap: "0 < cap"
    and fs: "\<forall>i. fs (shard_path out i) =
                 (if i * cap < length recs then Some (chunk cap recs i) else None)"
  shows "(fs(shard_path out (length recs div cap) \<mapsto> chunk cap recs (length recs div cap) @ [ex]))
           (shard_path out i) =
         (if i * cap < length (recs @ [ex]) then Some (chunk cap (recs @ [ex]) i) else None)"
proof (cases "i = length recs div cap")
  case True
  have "length recs div cap * cap \<le> length recs" by simp
  then have "length recs div cap * cap < Suc (length recs)" by (rule le_imp_less_Suc)
  then show ?thesis using True cap by (simp add: chunk_snoc_last)
next
  case False
  show ?thesis
  proof (cases "i * cap < length recs")
    case True
    then have "i \<le> length recs div cap"
      using cap by (simp add: less_eq_div_iff_mult_less_eq)
    with False have "i < length recs div cap" by simp
    then have "i * cap + cap \<le> length recs" using cap by (simp add: lt_div_iff)
    then show ?thesis using False True fs by (simp add: shard_path_inj chunk_snoc_full)
  next
    case nlt: False
    have "i * cap \<noteq> length recs"
    proof
      assume "i * cap = length recs"
      then have "length recs div cap = i" using cap by (metis nonzero_mult_div_cancel_right less_numeral_extra(3))
      with False show False by simp
    qed
    with nlt have "\<not> i * cap < length (recs @ [ex])" by simp
    then show ?thesis using False nlt fs by (simp add: shard_path_inj)
  qed
qed

lemma loop_body_fail:
  "load_and_convert w a entry = Inl err \<Longrightarrow>
   loop_body w a shard_size st entry = (open_shard a st, Some err)"
  by (simp add: loop_body_def)

lemma loop_body_ok:
  assumes cap: "0 < cap"
    and inv: "shard_inv cap (output_arg a) recs st"
    and ok: "load_and_convert w a entry = Inr ex"
  shows "\<exists>st'. loop_body w a (int cap) st entry = (st', None) \<and>
               shard_inv cap (output_arg a) (recs @ [ex]) st'"
proof -
  let ?n = "length recs"
  let ?j = "?n div cap"
  let ?p = "shard_path (output_arg a) ?j"
  let ?st1 = "open_shard a st"
  from inv have sid: "shard_id st = ?j"
    and wr: "num_examples_written st = int (?n mod cap)"
    and wt: "writer st = (if ?n mod cap = 0 then None else Some ?p)"
    and fs: "\<forall>i. files st (shard_path (output_arg a) i) =
                 (if i * cap < ?n then Some (chunk cap recs i) else None)"
    and dm: "dom (files st) \<subseteq> range (shard_path (output_arg a))"
    by (simp_all add: shard_inv_def)
  have w1: "writer ?st1 = Some ?p"
    using sid wr wt by (simp add: open_shard_def Let_def)
  have n1: "num_examples_written ?st1 = int (?n mod cap)"
    using wr by (simp add: open_shard_def Let_def)
  have s1: "shard_id ?st1 = ?j"
    using sid by (simp add: open_shard_def Let_def)
  have old: "(case files ?st1 ?p of None \<Rightarrow> [] | Some rs \<Rightarrow> rs) = chunk cap recs ?j"
  proof (cases "?n mod cap = 0")
    case True
    then have "?j * cap = ?n" by auto
    then have "chunk cap recs ?j = []" by (simp add: chunk_empty)
    then show ?thesis using True wr sid by (simp add: open_shard_def Let_def)
  next
    case False
    then have "?j * cap \<noteq> ?n" by (metis mod_mult_self2_is_0)
    moreover have "?j * cap \<le> ?n" by simp
    ultimately have "?j * cap < ?n" by linarith
    then show ?thesis using False wr fs by (simp add: open_shard_def Let_def)
  qed
  have f1: "(files ?st1)(?p \<mapsto> chunk cap recs ?j @ [ex]) =
            (files st)(?p \<mapsto> chunk cap recs ?j @ [ex])"
    using sid by (simp add: open_shard_def Let_def)
  define st2 where "st2 = ?st1\<lparr>files := (files st)(?p \<mapsto> chunk cap recs ?j @ [ex]),
                                 num_examples_written := int (?n mod cap) + 1\<rparr>"
  define st' where "st' = (if int (?n mod cap) + 1 = int cap
                           then st2\<lparr>shard_id := ?j + 1, num_examples_written := 0, writer := None\<rparr>
                           else st2)"
  have body: "loop_body w a (int cap) st entry = (st', None)"
    using ok w1 n1 s1 old f1
    by (simp add: loop_body_def Let_def st'_def st2_def)
  have files': "files st' = (files st)(?p \<mapsto> chunk cap recs ?j @ [ex])"
    by (simp add: st'_def st2_def)
  have fs': "\<forall>i. files st' (shard_path (output_arg a) i) =
               (if i * cap < length (recs @ [ex]) then Some (chunk cap (recs @ [ex]) i) else None)"
    unfolding files' using files_step[OF cap fs] by blast
  have dm': "dom (files st') \<subseteq> range (shard_path (output_arg a))"
    unfolding files' using dm by auto
  have eq: "(int (?n mod cap) + 1 = int cap) = (Suc (?n mod cap) = cap)" by linarith
  have rest: "shard_id st' = Suc ?n div cap \<and>
              num_examples_written st' = int (Suc ?n mod cap) \<and>
              writer st' = (if Suc ?n mod cap = 0 then None
                            else Some (shard_path (output_arg a) (Suc ?n div cap)))"
    using cap s1 w1 unfolding st'_def st2_def eq
    by (simp add: mod_Suc div_Suc)
  show ?thesis
    using body fs' dm' rest by (simp add: shard_inv_def)
qed

lemma loop_body_writer_ok:
  assumes "writer_ok st" and "load_and_convert w a entry = Inr ex"
  shows "\<exists>st'. loop_body w a shard_size st entry = (st', None) \<and> writer_ok st'"
proof -
  obtain p where "writer (open_shard a st) = Some p"
    using assms(1) by (cases "num_examples_written st = 0") (auto simp: open_shard_def writer_ok_def Let_def)
  then show ?thesis
    using assms(2) by (simp add: loop_body_def Let_def writer_ok_def)
qed

lemma run_loop_append:
  "run_loop w a ss st pre = (st', None) \<Longrightarrow>
   run_loop w a ss st (pre @ rest) = run_loop w a ss st' rest"
proof (induction pre arbitrary: st)
  case Nil
  then show ?case by simp
next
  case (Cons x pre)
  obtain st1 r where b: "loop_body w a ss st x = (st1, r)" by (cases "loop_body w a ss st x")
  show ?case
  proof (cases r)
    case None
    with b Cons.prems have "run_loop w a ss st1 pre = (st', None)" by simp
    from Cons.IH[OF this] b None show ?thesis by simp
  next
    case (Some err)
    with b Cons.prems show ?thesis by simp
  qed
qed

lemma run_loop_valid:
  assumes "writer_ok st" and "\<forall>x \<in> set l. \<exists>ex. load_and_convert w a x = Inr ex"
  shows "\<exists>st'. run_loop w a ss st l = (st', None) \<and> writer_ok st'"
  using assms
proof (induction l arbitrary: st)
  case Nil
  then show ?case by simp
next
  case (Cons x l)
  then obtain ex where "load_and_convert w a x = Inr ex" by auto
  with Cons.prems(1) obtain st1 where b: "loop_body w a ss st x = (st1, None)" and "writer_ok st1"
    using loop_body_writer_ok by blast
  with Cons.IH[of st1] Cons.prems(2) show ?case by simp
qed

lemma run_loop_abort:
  assumes "run_loop w a ss st pre = (st', None)"
    and "load_and_convert w a entry = Inl err"
  shows "run_loop w a ss st (pre @ entry # post) = (open_shard a st', Some err)"
  using run_loop_append[OF assms(1)] assms(2) by (simp add: loop_body_fail)

lemma run_loop_inv:
  assumes "0 < cap" and "shard_inv cap (output_arg a) recs st"
    and "run_loop w a (int cap) st l = (st', None)"
  shows "\<exists>rs. list_all2 (\<lambda>x r. load_and_convert w a x = Inr r) l rs \<and>
              shard_inv cap (output_arg a) (recs @ rs) st'"
  using assms(2,3)
proof (induction l arbitrary: st recs)
  case Nil
  then show ?case by simp
next
  case (Cons x l)
  show ?case
  proof (cases "load_and_convert w a x")
    case (Inl err)
    then show ?thesis using Cons.prems(2) by (simp add: loop_body_fail)
  next
    case (Inr ex)
    from loop_body_ok[OF assms(1) Cons.prems(1) Inr]
    obtain st1 where b: "loop_body w a (int cap) st x = (st1, None)"
      and i1: "shard_inv cap (output_arg a) (recs @ [ex]) st1" by blast
    from b Cons.prems(2) have "run_loop w a (int cap) st1 l = (st', None)" by simp
    from Cons.IH[OF i1 this] obtain rs where
      "list_all2 (\<lambda>x r. load_and_convert w a x = Inr r) l rs"
      "shard_inv cap (output_arg a) ((recs @ [ex]) @ rs) st'" by blast
    then show ?thesis using Inr by (intro exI[of _ "ex # rs"]) simp
  qed
qed

lemma dict_to_tf_example_frame:
  "gfile_read w' (path_join d (filename an)) = gfile_read w (path_join d (filename an)) \<Longrightarrow>
   pil_open w' = pil_open w \<Longrightarrow>
   dict_to_tf_example w' an d = dict_to_tf_example w an d"
  unfolding dict_to_tf_example_def Let_def by (simp split: option.split)

lemma load_and_convert_frame:
  "gfile_read w' = gfile_read w \<Longrightarrow> pil_open w' = pil_open w \<Longrightarrow> json_load w' = json_load w \<Longrightarrow>
   load_and_convert w' a x = load_and_convert w a x"
  by (simp add: load_and_convert_def dict_to_tf_example_frame[of w' _ _ w] split: option.splits)

lemma loop_body_frame:
  "gfile_read w' = gfile_read w \<Longrightarrow> pil_open w' = pil_open w \<Longrightarrow> json_load w' = json_load w \<Longrightarrow>
   loop_body w' a ss st x = loop_body w a ss st x"
  unfolding loop_body_def by (simp only: load_and_convert_frame[of w' w])

lemma run_loop_frame:
  assumes "gfile_read w' = gfile_read w" "pil_open w' = pil_open w" "json_load w' = json_load w"
  shows "run_loop w' a ss st l = run_loop w a ss st l"
proof (induction l arbitrary: st)
  case Nil
  show ?case by simp
next
  case (Cons x l)
  show ?case
    by (simp only: run_loop.simps loop_body_frame[OF assms] Cons.IH)
qed

lemma shard_inv_initial: "shard_inv cap out [] initial_state"
  by (simp add: shard_inv_def initial_state_def)

lemma writer_ok_initial: "writer_ok initial_state"
  by (simp add: writer_ok_def initial_state_def)

lemma shard_size_of_pos:
  "0 < n \<Longrightarrow> 0 < s \<Longrightarrow> 0 < shard_size_of n s"
  by (simp add: shard_size_of_def)

lemma main_unfold:
  assumes "num_shards a \<noteq> 0" and "deletable w \<or> out_dir w = None"
  shows "main w a l =
    (case run_loop w a (shard_size_of (int (length l)) (num_shards a)) initial_state l of
       (st, Some err) \<Rightarrow> (w\<lparr>out_dir := Some (files st)\<rparr>, Some err)
     | (st, None) \<Rightarrow> (w\<lparr>out_dir := Some (files st)\<rparr>, None))"
proof -
  let ?w1 = "w\<lparr>out_dir := Some Map.empty\<rparr>"
  have mk: "mkdir (rmtree_ignore_errors w) = Inr ?w1"
    using assms(2) by (auto simp: mkdir_def rmtree_ignore_errors_def)
  have fr: "run_loop ?w1 a ss st l = run_loop w a ss st l" for ss st
    by (rule run_loop_frame) simp_all
  show ?thesis
    using assms(1) by (simp add: main_def Let_def mk fr split: prod.splits option.splits)
qed

lemma main_mkdir_fails:
  assumes "num_shards a \<noteq> 0" and "\<not> deletable w" and "out_dir w \<noteq> None"
  shows "main w a l = (w, Some FileExistsError)"
  using assms by (auto simp: main_def Let_def mkdir_def rmtree_ignore_errors_def)

lemma records_of_all2:
  "list_all2 (\<lambda>x r. load_and_convert w a x = Inr r) l rs \<Longrightarrow> records_of w a l = rs"
  unfolding records_of_def by (induction l rs rule: list_all2_induct) simp_all

lemma main_success:
  assumes S: "0 < num_shards a" and run: "main w a l = (w', None)"
  shows "\<exists>fs. w' = w\<lparr>out_dir := Some fs\<rparr> \<and>
          length (records_of w a l) = length l \<and>
          (\<forall>x \<in> set l. \<exists>ex. load_and_convert w a x = Inr ex) \<and>
          (\<forall>i. fs (shard_path (output_arg a) i) =
             (if i * nat (shard_size_of (int (length l)) (num_shards a)) < length l
              then Some (chunk (nat (shard_size_of (int (length l)) (num_shards a)))
                           (records_of w a l) i)
              else None)) \<and>
          dom fs \<subseteq> range (shard_path (output_arg a))"
proof -
  let ?ss = "shard_size_of (int (length l)) (num_shards a)"
  let ?cap = "nat ?ss"
  have del: "deletable w \<or> out_dir w = None"
  proof (rule ccontr)
    assume "\<not> ?thesis"
    then have "main w a l = (w, Some FileExistsError)"
      using S by (intro main_mkdir_fails) auto
    with run show False by simp
  qed
  obtain st r where rl: "run_loop w a ?ss initial_state l = (st, r)"
    by (cases "run_loop w a ?ss initial_state l")
  have mu: "main w a l = (w\<lparr>out_dir := Some (files st)\<rparr>, r)"
    using S del rl by (cases r) (simp_all add: main_unfold)
  with run have r: "r = None" and w': "w' = w\<lparr>out_dir := Some (files st)\<rparr>" by simp_all
  show ?thesis
  proof (cases "l = []")
    case True
    then have "st = initial_state" using rl by simp
    then show ?thesis using True w'
      by (intro exI[of _ "Map.empty"]) (simp add: initial_state_def records_of_def)
  next
    case False
    then have "0 < ?ss" using S by (intro shard_size_of_pos) simp_all
    then have cap: "0 < ?cap" and icap: "int ?cap = ?ss" by simp_all
    have "run_loop w a (int ?cap) initial_state l = run_loop w a ?ss initial_state l"
      by (simp only: icap)
    then have rl': "run_loop w a (int ?cap) initial_state l = (st, None)"
      using rl r by simp
    from run_loop_inv[OF cap shard_inv_initial rl']
    obtain rs where all2: "list_all2 (\<lambda>x r. load_and_convert w a x = Inr r) l rs"
      and inv: "shard_inv ?cap (output_arg a) rs st" by auto
    have rec: "records_of w a l = rs" using all2 by (rule records_of_all2)
    have len: "length rs = length l" using all2 by (simp add: list_all2_lengthD)
    have valid: "\<forall>x \<in> set l. \<exists>ex. load_and_convert w a x = Inr ex"
    proof
      fix x assume "x \<in> set l"
      then obtain i where i: "i < length l" "l ! i = x" by (auto simp: in_set_conv_nth)
      from list_all2_nthD[OF all2 i(1)]
      have "load_and_convert w a (l ! i) = Inr (rs ! i)" .
      with i show "\<exists>ex. load_and_convert w a x = Inr ex" by auto
    qed
    from inv have fs: "\<forall>i. files st (shard_path (output_arg a) i) =
             (if i * ?cap < length rs then Some (chunk ?cap rs i) else None)"
      and dm: "dom (files st) \<subseteq> range (shard_path (output_arg a))"
      unfolding shard_inv_def by blast+
    show ?thesis
      apply (rule exI[of _ "files st"])
      apply (simp only: rec len)
      using w' valid fs dm len apply (simp only:)
      apply blast
      done
  qed
qed

lemma main_total:
  assumes "num_shards a \<noteq> 0" and "deletable w \<or> out_dir w = None"
    and "\<forall>x \<in> set l. \<exists>ex. load_and_convert w a x = Inr ex"
  shows "\<exists>w'. main w a l = (w', None)"
proof -
  from run_loop_valid[OF writer_ok_initial assms(3)]
  obtain st where "run_loop w a (shard_size_of (int (length l)) (num_shards a)) initial_state l = (st, None)"
    by blast
  then show ?thesis using assms(1,2) by (simp add: main_unfold)
qed

lemma main_abort:
  assumes "num_shards a \<noteq> 0" and "deletable w \<or> out_dir w = None"
    and "\<forall>x \<in> set pre. \<exists>ex. load_and_convert w a x = Inr ex"
    and "load_and_convert w a entry = Inl err"
  shows "\<exists>st. run_loop w a (shard_size_of (int (length (pre @ entry # post))) (num_shards a))
                 initial_state pre = (st, None) \<and>
              main w a (pre @ entry # post) =
                (w\<lparr>out_dir := Some (files (open_shard a st))\<rparr>, Some err)"
proof -
  let ?ss = "shard_size_of (int (length (pre @ entry # post))) (num_shards a)"
  from run_loop_valid[OF writer_ok_initial assms(3)]
  obtain st where st: "run_loop w a ?ss initial_state pre = (st, None)" by blast
  from run_loop_abort[OF st assms(4)]
  have "run_loop w a ?ss initial_state (pre @ entry # post) = (open_shard a st, Some err)" .
  then have "main w a (pre @ entry # post) =
      (w\<lparr>out_dir := Some (files (open_shard a st))\<rparr>, Some err)"
    using assms(1,2) by (simp add: main_unfold)
  with st show ?thesis by blast
qed

lemma scenario_accepts:
  "dict_to_tf_example scenario_world scenario_annotation ''images'' = Inr scenario_example"
  by (simp add: dict_to_tf_example_def scenario_world_def scenario_annotation_def
      scenario_example_def endswith_def path_join_def Let_def truediv_def py_float_def float_feature_def
      float_list_feature_def float_eval)

lemma shards_used_iff: "0 < cap \<Longrightarrow> i < shards_used n cap \<longleftrightarrow> i * cap < n"
proof -
  assume cap: "0 < cap"
  show ?thesis
  proof (cases "n = 0")
    case True
    then show ?thesis using cap by (simp add: shards_used_def)
  next
    case False
    have "i < (n + cap - 1) div cap \<longleftrightarrow> i * cap + cap \<le> n + cap - 1"
      using cap by (rule lt_div_iff)
    also have "\<dots> \<longleftrightarrow> i * cap < n" using False cap by auto
    finally show ?thesis by (simp add: shards_used_def)
  qed
qed

lemma shards_used_covers: "0 < cap \<Longrightarrow> n \<le> shards_used n cap * cap"
proof -
  assume cap: "0 < cap"
  have "\<not> shards_used n cap * cap < n"
    using shards_used_iff[OF cap, of "shards_used n cap" n] by simp
  then show ?thesis by linarith
qed

lemma shard_size_of_bound:
  assumes "0 < s"
  shows "int n \<le> shard_size_of (int n) s * s"
proof -
  have s: "0 < real_of_int s" using assms by simp
  have "real n / real_of_int s \<le> real_of_int (shard_size_of (int n) s)"
    by (simp add: shard_size_of_def)
  then have "real n \<le> real_of_int (shard_size_of (int n) s) * real_of_int s"
    using s by (simp add: divide_le_eq)
  then have "real_of_int (int n) \<le> real_of_int (shard_size_of (int n) s * s)" by simp
  then show ?thesis by (simp only: of_int_le_iff)
qed

lemma shard_size_of_nonneg: "0 < s \<Longrightarrow> 0 \<le> shard_size_of (int n) s"
proof -
  assume "0 < s"
  then have "0 \<le> real_of_int (int n) / real_of_int s" by simp
  then have "0 \<le> \<lceil>real_of_int (int n) / real_of_int s\<rceil>" by (simp only: zero_le_ceiling)
  then show ?thesis by (simp only: shard_size_of_def)
qed

lemma shards_used_le:
  assumes "0 < s"
  shows "shards_used n (nat (shard_size_of (int n) s)) \<le> nat s"
proof -
  let ?cap = "nat (shard_size_of (int n) s)"
  have "int n \<le> int ?cap * s"
    using shard_size_of_bound[OF assms, of n] shard_size_of_nonneg[OF assms, of n] by simp
  then have "int n \<le> int (?cap * nat s)" using assms by simp
  then have le: "n \<le> nat s * ?cap" by (simp only: of_nat_le_iff mult.commute)
  show ?thesis
  proof (cases "?cap = 0")
    case True
    then show ?thesis by (simp add: shards_used_def)
  next
    case False
    then have cap: "0 < ?cap" by simp
    have "\<not> nat s < shards_used n ?cap"
    proof
      assume "nat s < shards_used n ?cap"
      then have "nat s * ?cap < n" using shards_used_iff[OF cap, of "nat s" n] by simp
      with le show False by simp
    qed
    then show ?thesis by simp
  qed
qed

lemma shard_size_of_dvd:
  assumes "0 < s"
  shows "shard_size_of (s * m) s = m"
  using assms by (simp add: shard_size_of_def)

lemma shards_used_exact: "0 < m \<Longrightarrow> shards_used (k * m) m = k"
proof -
  assume m: "0 < m"
  have iff: "i < shards_used (k * m) m \<longleftrightarrow> i < k" for i
    using m by (simp add: shards_used_iff)
  from iff[of k] have "\<not> k < shards_used (k * m) m" by simp
  moreover from iff[of "shards_used (k * m) m"] have "\<not> shards_used (k * m) m < k" by simp
  ultimately show ?thesis by simp
qed

lemma length_chunk_full:
  "i * cap + cap \<le> length rs \<Longrightarrow> length (chunk cap rs i) = cap"
  by (simp add: chunk_def)

lemma length_chunk_le: "length (chunk cap rs i) \<le> cap"
  by (simp add: chunk_def)

lemma shards_used_0: "shards_used 0 cap = 0"
  by (cases "cap = 0") (simp_all add: shards_used_def)

lemma main_cap_pos:
  assumes "0 < num_shards a" and "l \<noteq> []"
  shows "0 < nat (shard_size_of (int (length l)) (num_shards a))"
proof -
  have "0 < shard_size_of (int (length l)) (num_shards a)"
    using assms by (intro shard_size_of_pos) simp_all
  then show ?thesis by simp
qed

lemma main_shard_contents:
  assumes "0 < num_shards a" and "main w a l = (w', None)"
  shows "shard_contents w' a i =
           chunk (nat (shard_size_of (int (length l)) (num_shards a))) (records_of w a l) i"
proof -
  let ?cap = "nat (shard_size_of (int (length l)) (num_shards a))"
  from main_success[OF assms] obtain fs where w': "w' = w\<lparr>out_dir := Some fs\<rparr>"
    and len: "length (records_of w a l) = length l"
    and fs: "\<forall>i. fs (shard_path (output_arg a) i) =
             (if i * ?cap < length l then Some (chunk ?cap (records_of w a l) i) else None)"
    by blast
  show ?thesis
  proof (cases "i * ?cap < length l")
    case True
    then show ?thesis using fs by (simp add: shard_contents_def w')
  next
    case False
    then have "chunk ?cap (records_of w a l) i = []" using len by (simp add: chunk_empty)
    then show ?thesis using False fs by (simp add: shard_contents_def w')
  qed
qed

lemma main_shard_files:
  assumes "0 < num_shards a" and "main w a l = (w', None)"
  shows "shard_files w' =
           shard_path (output_arg a) `
             {i. i < shards_used (length l) (nat (shard_size_of (int (length l)) (num_shards a)))}"
proof -
  let ?cap = "nat (shard_size_of (int (length l)) (num_shards a))"
  from main_success[OF assms] obtain fs where w': "w' = w\<lparr>out_dir := Some fs\<rparr>"
    and fs: "\<forall>i. fs (shard_path (output_arg a) i) =
             (if i * ?cap < length l then Some (chunk ?cap (records_of w a l) i) else None)"
    and dm: "dom fs \<subseteq> range (shard_path (output_arg a))"
    by blast
  have iff: "i < shards_used (length l) ?cap \<longleftrightarrow> i * ?cap < length l" for i
  proof (cases "l = []")
    case True
    then show ?thesis by (simp add: shards_used_0)
  next
    case False
    from main_cap_pos[OF assms(1) False] show ?thesis by (rule shards_used_iff)
  qed
  have "dom fs = shard_path (output_arg a) ` {i. i * ?cap < length l}"
  proof (intro set_eqI iffI)
    fix p assume "p \<in> dom fs"
    with dm obtain i where p: "p = shard_path (output_arg a) i" by blast
    with \<open>p \<in> dom fs\<close> fs have "i * ?cap < length l"
      by (auto simp: dom_def split: if_splits)
    with p show "p \<in> shard_path (output_arg a) ` {i. i * ?cap < length l}" by blast
  next
    fix p assume "p \<in> shard_path (output_arg a) ` {i. i * ?cap < length l}"
    then obtain i where "p = shard_path (output_arg a) i" "i * ?cap < length l" by blast
    with fs show "p \<in> dom fs" by (auto simp: dom_def)
  qed
  then show ?thesis by (simp add: shard_files_def w' iff)
qed

lemma main_records_length:
  assumes "0 < num_shards a" and "main w a l = (w', None)"
  shows "length (records_of w a l) = length l"
  using main_success[OF assms] by blast

lemma card_shard_paths: "card (shard_path out ` {i. i < k}) = k"
proof -
  have "inj_on (shard_path out) {i. i < k}"
    by (rule inj_onI) (simp add: shard_path_inj)
  then have "card (shard_path out ` {i. i < k}) = card {i. i < k}" by (rule card_image)
  then show ?thesis by simp
qed

lemma capacity_ceiling:
  "0 < num_shards a \<Longrightarrow>
   int (capacity a l) = \<lceil>real (length l) / real_of_int (num_shards a)\<rceil>"
  using shard_size_of_nonneg[of "num_shards a" "length l"]
  by (simp add: capacity_def shard_size_of_def)

lemma capacity_pos: "0 < num_shards a \<Longrightarrow> l \<noteq> [] \<Longrightarrow> 0 < capacity a l"
  unfolding capacity_def by (rule main_cap_pos)

lemma concat_all_chunks:
  assumes "0 < cap \<or> rs = []"
  shows "concat (map (chunk cap rs) [0..<shards_used (length rs) cap]) = rs"
proof (cases "rs = []")
  case True
  then show ?thesis by (simp add: shards_used_0)
next
  case False
  with assms have cap: "0 < cap" by simp
  have "concat (map (chunk cap rs) [0..<shards_used (length rs) cap]) =
        take (shards_used (length rs) cap * cap) rs"
    by (rule concat_chunks)
  also have "\<dots> = rs" using shards_used_covers[OF cap, of "length rs"] by simp
  finally show ?thesis .
qed

lemma sizes_ten_three:
  assumes "length rs = 10"
  shows "map (\<lambda>i. length (chunk 4 rs i)) [0..<3] = [4, 4, 2]"
proof -
  have "[0..<3] = [0, 1, 2::nat]" by (simp add: upt_rec)
  then show ?thesis using assms by (simp add: chunk_def)
qed

lemma capacity_ten_three:
  "length l = 10 \<Longrightarrow> num_shards a = 3 \<Longrightarrow> capacity a l = 4"
  by (simp add: capacity_def shard_size_of_def)

lemma length_str_nat: "0 < k \<Longrightarrow> n < 10 ^ k \<Longrightarrow> length (str_nat n) \<le> k"
proof (induction k arbitrary: n)
  case 0
  then show ?case by simp
next
  case (Suc k)
  show ?case
  proof (cases "n < 10")
    case True
    then show ?thesis by (subst str_nat.simps) simp
  next
    case False
    with Suc.prems(2) have k: "0 < k" by (cases k) simp_all
    from Suc.prems(2) have "n div 10 < 10 ^ k" by (simp add: less_mult_imp_div_less mult.commute)
    from Suc.IH[OF k this] False show ?thesis
      by (subst str_nat.simps) (simp del: str_nat.simps)
  qed
qed

lemma length_str_nat_pos: "0 < length (str_nat n)"
  by (subst str_nat.simps) (simp del: str_nat.simps)

lemma length_fmt_04d: "n < 10000 \<Longrightarrow> length (fmt_04d n) = 4"
proof -
  assume "n < 10000"
  then have "n < 10 ^ 4" by simp
  then have "length (str_nat n) \<le> 4" by (intro length_str_nat) simp_all
  then show ?thesis by (simp add: fmt_04d_def del: str_nat.simps)
qed

lemma shard_path_0: "shard_path ''out'' 0 = ''out/shard-0000.tfrecords''"
  by (simp add: shard_path_def fmt_04d_def path_join_def eval_nat_numeral)

lemma shard_path_1: "shard_path ''out'' (Suc 0) = ''out/shard-0001.tfrecords''"
  by (simp add: shard_path_def fmt_04d_def path_join_def eval_nat_numeral)

lemma shard_path_2: "shard_path ''out'' 2 = ''out/shard-0002.tfrecords''"
  by (simp add: shard_path_def fmt_04d_def path_join_def eval_nat_numeral)

lemma two_shard_valid:
  "load_and_convert scenario_world two_shard_args x = Inr scenario_example"
  by (simp add: load_and_convert_def scenario_world_def scenario_args_def two_shard_args_def
      dict_to_tf_example_def scenario_annotation_def scenario_example_def
      endswith_def path_join_def Let_def truediv_def py_float_def float_feature_def
      float_list_feature_def float_eval)

lemma main_card_files:
  assumes "0 < num_shards a" and "main w a l = (w', None)"
  shows "card (shard_files w') = shards_used (length l) (capacity a l)"
  unfolding capacity_def main_shard_files[OF assms] by (rule card_shard_paths)

lemma capacity_dvd:
  assumes "0 < num_shards a" and "l \<noteq> []" and "num_shards a dvd int (length l)"
  shows "shards_used (length l) (capacity a l) = nat (num_shards a)"
proof -
  from assms(3) obtain m where m: "int (length l) = num_shards a * m" by (rule dvdE)
  have mpos: "0 < m"
  proof (rule ccontr)
    assume "\<not> 0 < m"
    then have "num_shards a * m \<le> 0" using assms(1) by (simp add: mult_le_0_iff)
    with m have "int (length l) \<le> 0" by simp
    with assms(2) show False by simp
  qed
  have cap: "capacity a l = nat m"
    using assms(1) by (simp add: capacity_def m shard_size_of_dvd)
  have "length l = nat (num_shards a * m)" using m by simp
  also have "\<dots> = nat (num_shards a) * nat m"
    using assms(1) by (simp add: nat_mult_distrib)
  finally have len: "length l = nat (num_shards a) * nat m" .
  show ?thesis unfolding cap len using mpos by (intro shards_used_exact) simp
qed

lemma ceiling_half: "\<lceil>(1::real) / 2\<rceil> = 1"
  by (rule ceiling_unique) simp_all

lemma single_entry_run:
  "snd (main scenario_world two_shard_args [''0.json'']) = None \<and>
   shard_files (fst (main scenario_world two_shard_args [''0.json''])) =
     {''out/shard-0000.tfrecords''}"
proof -
  have pos: "0 < num_shards two_shard_args" and two: "num_shards two_shard_args = 2"
    and out: "output_arg two_shard_args = ''out''"
    by (simp_all add: two_shard_args_def scenario_args_def)
  have "\<exists>w'. main scenario_world two_shard_args [''0.json''] = (w', None)"
  proof (rule main_total)
    show "num_shards two_shard_args \<noteq> 0" using pos by simp
    show "deletable scenario_world \<or> out_dir scenario_world = None"
      by (simp add: scenario_world_def)
    show "\<forall>x \<in> set [''0.json''].
            \<exists>ex. load_and_convert scenario_world two_shard_args x = Inr ex"
      by (simp add: two_shard_valid)
  qed
  then obtain w' where run: "main scenario_world two_shard_args [''0.json''] = (w', None)" ..
  have cap: "nat (shard_size_of (int (length [''0.json''])) (num_shards two_shard_args)) = 1"
    by (simp add: two shard_size_of_def ceiling_half)
  have one: "{i::nat. i < 1} = {0}" by auto
  have "shard_files w' = shard_path ''out'' ` {i. i < shards_used 1 1}"
    using main_shard_files[OF pos run] by (simp only: cap out) simp
  then have files: "shard_files w' = {''out/shard-0000.tfrecords''}"
    by (simp add: shards_used_def one shard_path_0)
  show ?thesis using files by (simp add: run)
qed

lemma open_shard_contents:
  assumes cap: "0 < cap" and inv: "shard_inv cap (output_arg a) recs st"
  shows "(case files (open_shard a st) (shard_path (output_arg a) i) of
            None \<Rightarrow> [] | Some rs \<Rightarrow> rs) = chunk cap recs i"
proof -
  let ?n = "length recs"
  let ?j = "?n div cap"
  from inv have sid: "shard_id st = ?j"
    and wr: "num_examples_written st = int (?n mod cap)"
    and fs: "\<forall>i. files st (shard_path (output_arg a) i) =
                 (if i * cap < ?n then Some (chunk cap recs i) else None)"
    by (simp_all add: shard_inv_def)
  have old: "(case files st (shard_path (output_arg a) i) of None \<Rightarrow> [] | Some rs \<Rightarrow> rs) =
      chunk cap recs i"
  proof (cases "i * cap < ?n")
    case True
    then show ?thesis using fs by simp
  next
    case False
    then have "chunk cap recs i = []" by (simp add: chunk_empty)
    then show ?thesis using False fs by simp
  qed
  show ?thesis
  proof (cases "?n mod cap = 0 \<and> i = ?j")
    case True
    then have "?j * cap = ?n" by auto
    then have "chunk cap recs i = []" using True by (simp add: chunk_empty)
    then show ?thesis using True wr sid by (simp add: open_shard_def Let_def)
  next
    case False
    then have "files (open_shard a st) (shard_path (output_arg a) i) =
        files st (shard_path (output_arg a) i)"
      using wr sid by (auto simp: open_shard_def Let_def shard_path_inj)
    then show ?thesis using old by simp
  qed
qed

lemma run_loop_inv_valid:
  assumes "0 < cap" and "shard_inv cap (output_arg a) [] st"
    and "run_loop w a (int cap) st l = (st', None)"
  shows "shard_inv cap (output_arg a) (records_of w a l) st'"
proof -
  from run_loop_inv[OF assms] obtain rs
    where all2: "list_all2 (\<lambda>x r. load_and_convert w a x = Inr r) l rs"
      and inv: "shard_inv cap (output_arg a) ([] @ rs) st'" by blast
  from all2 have "records_of w a l = rs" by (rule records_of_all2)
  with inv show ?thesis by simp
qed

lemma main_fst: "\<exists>z. fst (main w a l) = w\<lparr>out_dir := z\<rparr>"
proof (cases "num_shards a = 0")
  case True
  then have "fst (main w a l) = w\<lparr>out_dir := out_dir w\<rparr>" by (simp add: main_def)
  then show ?thesis by blast
next
  case False
  show ?thesis
  proof (cases "deletable w \<or> out_dir w = None")
    case True
    from main_unfold[OF False True, of l] show ?thesis
      by (auto split: prod.splits option.splits)
  next
    case no: False
    then have "main w a l = (w, Some FileExistsError)"
      using False by (intro main_mkdir_fails) auto
    then have "fst (main w a l) = w\<lparr>out_dir := out_dir w\<rparr>" by simp
    then show ?thesis by blast
  qed
qed

lemma main_out_dir_irrelevant:
  assumes "deletable w" and "num_shards a \<noteq> 0"
  shows "main (w\<lparr>out_dir := z\<rparr>) a l = main (w\<lparr>out_dir := None\<rparr>) a l"
proof -
  have fr: "run_loop (w\<lparr>out_dir := y\<rparr>) a ss st l = run_loop w a ss st l" for y ss st
    by (rule run_loop_frame) simp_all
  have "main (w\<lparr>out_dir := y\<rparr>) a l =
    (case run_loop w a (shard_size_of (int (length l)) (num_shards a)) initial_state l of
       (st, Some err) \<Rightarrow> (w\<lparr>out_dir := Some (files st)\<rparr>, Some err)
     | (st, None) \<Rightarrow> (w\<lparr>out_dir := Some (files st)\<rparr>, None))" for y
    using assms by (subst main_unfold) (simp_all add: fr)
  then show ?thesis by simp
qed
section \<open>The claims\<close>

lemma stored_nonneg:
  assumes "0 < n" and "0 \<le> v"
  shows "0 \<le> fl32 (truediv (py_float v) n)"
proof -
  have "0 \<le> fl64 v" using assms(2) by (rule fl64_nonneg)
  then have "0 \<le> fl64 v / real_of_int n" using assms(1) by simp
  then have "0 \<le> fl64 (fl64 v / real_of_int n)" by (rule fl64_nonneg)
  then show ?thesis unfolding truediv_def py_float_def by (rule fl32_nonneg)
qed

lemma stored_le_1:
  assumes "0 < n" and "py_float v \<le> real_of_int n"
  shows "fl32 (truediv (py_float v) n) \<le> 1"
proof -
  have "py_float v / real_of_int n \<le> 1" using assms by (simp add: divide_le_eq_1)
  then have "fl64 (py_float v / real_of_int n) \<le> fl64 1" by (rule fl64_mono)
  then have "truediv (py_float v) n \<le> 1" by (simp add: truediv_def fl64_1)
  then have "fl32 (truediv (py_float v) n) \<le> fl32 1" by (rule fl32_mono)
  then show ?thesis by (simp add: fl32_1)
qed

lemma image_checks_size:
  assumes "image_checks e a d"
  shows "0 < width (size_of a)" and "0 < height (size_of a)"
  using assms by (auto simp: image_checks_def split: option.splits)

text \<open>
  Claim C2. For every annotation the validator accepts, the normalized box is each x
  pixel coordinate divided by the declared width and each y pixel coordinate divided
  by the declared height, in double precision, and the record holds it in single
  precision; the doubles satisfy \<open>xmin < xmax\<close> and \<open>ymin < ymax\<close>, so the fields of
  the record are ordered. An annotation whose normalized box is not strictly ordered is
  rejected, by the assertion on line 92 when the checks before it pass. For the
  scenario annotation the result is \<open>xmin = 0.25\<close>, \<open>xmax = 0.75\<close>, \<open>ymax = 0.50\<close> and
  for \<open>ymin\<close> the number of the format nearest to \<open>0.10\<close>; the inverted box is rejected,
  and so is a box whose bounds differ in pixels but not after the division (the
  instances after the theorem).
\<close>

theorem box_normalization:
  "(dict_to_tf_example e a d = Inr ex \<longrightarrow>
      xmin ex = fl32 (truediv (py_float (b_xmin (box a))) (width (size_of a))) \<and>
      xmax ex = fl32 (truediv (py_float (b_xmax (box a))) (width (size_of a))) \<and>
      ymin ex = fl32 (truediv (py_float (b_ymin (box a))) (height (size_of a))) \<and>
      ymax ex = fl32 (truediv (py_float (b_ymax (box a))) (height (size_of a))) \<and>
      box_xmin a < box_xmax a \<and> box_ymin a < box_ymax a \<and>
      xmin ex \<le> xmax ex \<and> ymin ex \<le> ymax ex) \<and>
   (\<not> (box_xmin a < box_xmax a \<and> box_ymin a < box_ymax a) \<longrightarrow>
      (\<exists>err. dict_to_tf_example e a d = Inl err) \<and>
      (image_checks e a d \<longrightarrow> dict_to_tf_example e a d = Inl (AssertionError 92)))"
proof (intro conjI impI)
  assume ok: "dict_to_tf_example e a d = Inr ex"
  then have ex: "ex = normalized e a d"
    and y: "box_ymin a < box_ymax a"
    and x: "box_xmin a < box_xmax a"
    by (simp_all add: dict_to_tf_example_Inr_iff)
  show "xmin ex = fl32 (truediv (py_float (b_xmin (box a))) (width (size_of a)))"
    and "xmax ex = fl32 (truediv (py_float (b_xmax (box a))) (width (size_of a)))"
    and "ymin ex = fl32 (truediv (py_float (b_ymin (box a))) (height (size_of a)))"
    and "ymax ex = fl32 (truediv (py_float (b_ymax (box a))) (height (size_of a)))"
    by (simp_all add: ex normalized_def box_xmin_def box_xmax_def box_ymin_def box_ymax_def)
  show "box_xmin a < box_xmax a" and "box_ymin a < box_ymax a" using x y .
  show "xmin ex \<le> xmax ex" using x by (simp add: ex normalized_def fl32_mono)
  show "ymin ex \<le> ymax ex" using y by (simp add: ex normalized_def fl32_mono)
next
  assume deg: "\<not> (box_xmin a < box_xmax a \<and> box_ymin a < box_ymax a)"
  show "\<exists>err. dict_to_tf_example e a d = Inl err"
  proof (cases "dict_to_tf_example e a d")
    case (Inl err)
    then show ?thesis by blast
  next
    case (Inr ex)
    then show ?thesis using deg by (auto simp: dict_to_tf_example_Inr_iff)
  qed
  assume "image_checks e a d"
  then show "dict_to_tf_example e a d = Inl (AssertionError 92)"
    using deg by (intro dict_to_tf_example_geometry) auto
qed

theorem box_normalization_witness:
  "dict_to_tf_example scenario_world scenario_annotation ''images'' = Inr scenario_example \<and>
   box_xmin scenario_annotation = 0.25 \<and> box_xmax scenario_annotation = 0.75 \<and>
   box_ymin scenario_annotation = 3602879701896397 / 36028797018963968 \<and>
   box_ymax scenario_annotation = 0.50 \<and>
   xmin scenario_example = 0.25 \<and> xmax scenario_example = 0.75 \<and>
   ymin scenario_example = 13421773 / 134217728 \<and>
   \<bar>ymin scenario_example - 0.10\<bar> < 1 / 10 ^ 8 \<and>
   ymax scenario_example = 0.50 \<and>
   image_checks scenario_world inverted_annotation ''images'' \<and>
   dict_to_tf_example scenario_world inverted_annotation ''images'' = Inl (AssertionError 92) \<and>
   image_checks scenario_world tie_annotation ''images'' \<and>
   b_xmin (box tie_annotation) < b_xmax (box tie_annotation) \<and>
   box_xmin tie_annotation = box_xmax tie_annotation \<and>
   dict_to_tf_example scenario_world tie_annotation ''images'' = Inl (AssertionError 92)"
proof -
  have ic: "image_checks scenario_world inverted_annotation ''images''"
    by (simp add: image_checks_def scenario_world_def inverted_annotation_def
        scenario_annotation_def endswith_def path_join_def)
  have deg: "\<not> (box_xmin inverted_annotation < box_xmax inverted_annotation \<and>
                box_ymin inverted_annotation < box_ymax inverted_annotation)"
    by (simp add: box_xmin_def box_xmax_def inverted_annotation_def scenario_annotation_def
        truediv_def py_float_def float_eval)
  have ict: "image_checks scenario_world tie_annotation ''images''"
    by (simp add: image_checks_def scenario_world_def tie_annotation_def
        scenario_annotation_def endswith_def path_join_def)
  have px: "b_xmin (box tie_annotation) < b_xmax (box tie_annotation)"
    by (simp add: tie_annotation_def)
  have tie: "box_xmin tie_annotation = box_xmax tie_annotation"
    by (simp add: box_xmin_def box_xmax_def tie_annotation_def scenario_annotation_def
        truediv_def py_float_def float_eval)
  then have degt: "\<not> (box_xmin tie_annotation < box_xmax tie_annotation \<and>
                 box_ymin tie_annotation < box_ymax tie_annotation)"
    by simp
  have b: "box_xmin scenario_annotation = 0.25 \<and> box_xmax scenario_annotation = 0.75 \<and>
      box_ymin scenario_annotation = 3602879701896397 / 36028797018963968 \<and>
      box_ymax scenario_annotation = 0.50"
    by (simp add: box_xmin_def box_xmax_def box_ymin_def box_ymax_def scenario_annotation_def
        truediv_def py_float_def float_eval)
  from box_normalization[of scenario_world scenario_annotation "''images''" scenario_example]
    scenario_accepts
  have "xmin scenario_example
          = fl32 (truediv (py_float (b_xmin (box scenario_annotation))) (width (size_of scenario_annotation)))"
    and "xmax scenario_example
          = fl32 (truediv (py_float (b_xmax (box scenario_annotation))) (width (size_of scenario_annotation)))"
    and "ymin scenario_example
          = fl32 (truediv (py_float (b_ymin (box scenario_annotation))) (height (size_of scenario_annotation)))"
    and "ymax scenario_example
          = fl32 (truediv (py_float (b_ymax (box scenario_annotation))) (height (size_of scenario_annotation)))"
    by blast+
  then have vals: "xmin scenario_example = 0.25 \<and> xmax scenario_example = 0.75 \<and>
      ymin scenario_example = 13421773 / 134217728 \<and> ymax scenario_example = 0.50"
    by (simp add: scenario_annotation_def truediv_def py_float_def float_eval)
  then have near: "\<bar>ymin scenario_example - 0.10\<bar> < 1 / 10 ^ 8"
    by simp
  from box_normalization[of scenario_world inverted_annotation "''images''"] ic deg
  have inv: "dict_to_tf_example scenario_world inverted_annotation ''images'' = Inl (AssertionError 92)"
    by blast
  from box_normalization[of scenario_world tie_annotation "''images''"] ict degt
  have "dict_to_tf_example scenario_world tie_annotation ''images'' = Inl (AssertionError 92)"
    by blast
  with scenario_accepts b vals near ic inv ict px tie show ?thesis by blast
qed

text \<open>
  Claim C3. For each landmark pair of an accepted annotation the validator divides x by
  the declared width and y by the declared height, emits the pair as \<open>(y, x)\<close> into the
  flat output sequence, in the order of the input, and the normalized y lies in
  \<open>[ymin, ymax]\<close> and the normalized x in \<open>[xmin, xmax]\<close>, bounds included: this holds
  of the doubles the validator compares and of the single-precision numbers the record
  holds. An annotation with a landmark outside these bounds is rejected, by the
  assertion of line 99 or of line 100 when the checks before them pass; an annotation
  whose landmarks are all within the bounds, those on a bound among them, is accepted
  when the checks before line 99 pass. The statement holds for any number of pairs,
  five among them.
\<close>

theorem landmark_normalization:
  "(dict_to_tf_example e a d = Inr ex \<longrightarrow>
      landmarks ex =
        map fl32 (concat (map (\<lambda>(x, y). [truediv y (height (size_of a)),
                                          truediv x (width (size_of a))]) (landmarks_px a))) \<and>
      (\<forall>(x, y) \<in> set (landmarks_px a).
         box_ymin a \<le> truediv y (height (size_of a)) \<and>
         truediv y (height (size_of a)) \<le> box_ymax a \<and>
         box_xmin a \<le> truediv x (width (size_of a)) \<and>
         truediv x (width (size_of a)) \<le> box_xmax a \<and>
         ymin ex \<le> fl32 (truediv y (height (size_of a))) \<and>
         fl32 (truediv y (height (size_of a))) \<le> ymax ex \<and>
         xmin ex \<le> fl32 (truediv x (width (size_of a))) \<and>
         fl32 (truediv x (width (size_of a))) \<le> xmax ex)) \<and>
   ((\<exists>p \<in> set (landmarks_px a). \<not> in_box a p) \<longrightarrow>
      (\<exists>err. dict_to_tf_example e a d = Inl err)) \<and>
   (image_checks e a d \<and> box_ymin a < box_ymax a \<and> box_xmin a < box_xmax a \<and>
    (\<exists>p \<in> set (landmarks_px a). \<not> in_box a p) \<longrightarrow>
      dict_to_tf_example e a d = Inl (AssertionError 99) \<or>
      dict_to_tf_example e a d = Inl (AssertionError 100)) \<and>
   (image_checks e a d \<and> box_ymin a < box_ymax a \<and> box_xmin a < box_xmax a \<and>
    (\<forall>p \<in> set (landmarks_px a). in_box a p) \<longrightarrow>
      dict_to_tf_example e a d = Inr (normalized e a d))"
proof (intro conjI impI)
  assume ok: "dict_to_tf_example e a d = Inr ex"
  then have ex: "ex = normalized e a d"
    and inb: "\<forall>p \<in> set (landmarks_px a). in_box a p"
    by (simp_all add: dict_to_tf_example_Inr_iff)
  show "landmarks ex =
        map fl32 (concat (map (\<lambda>(x, y). [truediv y (height (size_of a)),
                                          truediv x (width (size_of a))]) (landmarks_px a)))"
    by (simp add: ex normalized_def)
  show "\<forall>(x, y) \<in> set (landmarks_px a).
         box_ymin a \<le> truediv y (height (size_of a)) \<and>
         truediv y (height (size_of a)) \<le> box_ymax a \<and>
         box_xmin a \<le> truediv x (width (size_of a)) \<and>
         truediv x (width (size_of a)) \<le> box_xmax a \<and>
         ymin ex \<le> fl32 (truediv y (height (size_of a))) \<and>
         fl32 (truediv y (height (size_of a))) \<le> ymax ex \<and>
         xmin ex \<le> fl32 (truediv x (width (size_of a))) \<and>
         fl32 (truediv x (width (size_of a))) \<le> xmax ex"
    using inb by (auto simp: ex normalized_def in_box_def intro: fl32_mono)
next
  assume "\<exists>p \<in> set (landmarks_px a). \<not> in_box a p"
  then show "\<exists>err. dict_to_tf_example e a d = Inl err"
    by (cases "dict_to_tf_example e a d") (auto simp: dict_to_tf_example_Inr_iff)
next
  assume "image_checks e a d \<and> box_ymin a < box_ymax a \<and> box_xmin a < box_xmax a \<and>
    (\<exists>p \<in> set (landmarks_px a). \<not> in_box a p)"
  then show "dict_to_tf_example e a d = Inl (AssertionError 99) \<or>
      dict_to_tf_example e a d = Inl (AssertionError 100)"
    using dict_to_tf_example_landmark[of e a d] by blast
next
  assume "image_checks e a d \<and> box_ymin a < box_ymax a \<and> box_xmin a < box_xmax a \<and>
    (\<forall>p \<in> set (landmarks_px a). in_box a p)"
  then show "dict_to_tf_example e a d = Inr (normalized e a d)"
    by (simp add: dict_to_tf_example_Inr_iff)
qed

theorem landmark_normalization_witness:
  "dict_to_tf_example scenario_world scenario_annotation ''images'' = Inr scenario_example \<and>
   truediv 100 500 = 3602879701896397 / 18014398509481984 \<and> truediv 150 400 = 0.375 \<and>
   \<bar>truediv 100 500 - 0.20\<bar> < 1 / 10 ^ 16 \<and>
   landmarks scenario_example =
     [13421773 / 67108864, 0.375, 13421773 / 67108864, 0.625, 5033165 / 16777216, 0.5,
      13421773 / 33554432, 13421773 / 33554432, 13421773 / 33554432, 5033165 / 8388608] \<and>
   \<bar>hd (landmarks scenario_example) - 0.20\<bar> < 1 / 10 ^ 8 \<and>
   image_checks scenario_world outside_annotation ''images'' \<and>
   box_ymin outside_annotation < box_ymax outside_annotation \<and>
   box_xmin outside_annotation < box_xmax outside_annotation \<and>
   (350, 100) \<in> set (landmarks_px outside_annotation) \<and>
   \<not> in_box outside_annotation (350, 100) \<and>
   dict_to_tf_example scenario_world outside_annotation ''images'' = Inl (AssertionError 100) \<and>
   image_checks scenario_world corner_annotation ''images'' \<and>
   box_ymin corner_annotation < box_ymax corner_annotation \<and>
   box_xmin corner_annotation < box_xmax corner_annotation \<and>
   landmarks_px corner_annotation = [(100, 50), (300, 250)] \<and>
   truediv 100 400 = box_xmin corner_annotation \<and> truediv 50 500 = box_ymin corner_annotation \<and>
   truediv 300 400 = box_xmax corner_annotation \<and> truediv 250 500 = box_ymax corner_annotation \<and>
   in_box corner_annotation (100, 50) \<and> in_box corner_annotation (300, 250) \<and>
   dict_to_tf_example scenario_world corner_annotation ''images'' =
     Inr (normalized scenario_world corner_annotation ''images'') \<and>
   image_checks scenario_world edge_annotation ''images'' \<and>
   box_ymin edge_annotation < box_ymax edge_annotation \<and>
   box_xmin edge_annotation < box_xmax edge_annotation \<and>
   landmarks_px edge_annotation = [(7740561859543041 / 35184372088832, 100)] \<and>
   b_xmax (box edge_annotation) < 7740561859543041 / 35184372088832 \<and>
   in_box edge_annotation (7740561859543041 / 35184372088832, 100) \<and>
   dict_to_tf_example scenario_world edge_annotation ''images'' =
     Inr (normalized scenario_world edge_annotation ''images'')"
proof -
  note ev = box_xmin_def box_xmax_def box_ymin_def box_ymax_def in_box_def
    scenario_annotation_def truediv_def py_float_def float_eval
  from landmark_normalization[of scenario_world scenario_annotation "''images''" scenario_example]
    scenario_accepts
  have "landmarks scenario_example =
        map fl32 (concat (map (\<lambda>(x, y). [truediv y (height (size_of scenario_annotation)),
                                          truediv x (width (size_of scenario_annotation))])
                    (landmarks_px scenario_annotation)))"
    by blast
  then have l: "landmarks scenario_example =
     [13421773 / 67108864, 0.375, 13421773 / 67108864, 0.625, 5033165 / 16777216, 0.5,
      13421773 / 33554432, 13421773 / 33554432, 13421773 / 33554432, 5033165 / 8388608]"
    by (simp add: scenario_annotation_def truediv_def float_eval)
  then have hd: "\<bar>hd (landmarks scenario_example) - 0.20\<bar> < 1 / 10 ^ 8"
    by simp
  have first: "truediv 100 500 = 3602879701896397 / 18014398509481984 \<and> truediv 150 400 = 0.375 \<and>
      \<bar>truediv 100 500 - 0.20\<bar> < 1 / 10 ^ 16"
    by (simp add: truediv_def float_eval)
  have ico: "image_checks scenario_world outside_annotation ''images''"
    by (simp add: image_checks_def scenario_world_def outside_annotation_def
        scenario_annotation_def endswith_def path_join_def)
  have bo: "box_ymin outside_annotation < box_ymax outside_annotation"
      "box_xmin outside_annotation < box_xmax outside_annotation"
    by (simp_all add: outside_annotation_def ev)
  have m: "(350, 100) \<in> set (landmarks_px outside_annotation)"
    by (simp add: outside_annotation_def scenario_annotation_def)
  have o: "\<not> in_box outside_annotation (350, 100)"
    by (simp add: outside_annotation_def ev)
  from landmark_normalization[of scenario_world outside_annotation "''images''"] ico bo m o
  have "dict_to_tf_example scenario_world outside_annotation ''images'' = Inl (AssertionError 99) \<or>
      dict_to_tf_example scenario_world outside_annotation ''images'' = Inl (AssertionError 100)"
    by blast
  moreover have "dict_to_tf_example scenario_world outside_annotation ''images'' \<noteq> Inl (AssertionError 99)"
    by (simp add: dict_to_tf_example_def scenario_world_def outside_annotation_def
        scenario_annotation_def endswith_def path_join_def Let_def
        truediv_def py_float_def float_eval)
  ultimately have rej: "dict_to_tf_example scenario_world outside_annotation ''images'' = Inl (AssertionError 100)"
    by blast
  have icc: "image_checks scenario_world corner_annotation ''images''"
    by (simp add: image_checks_def scenario_world_def corner_annotation_def
        scenario_annotation_def endswith_def path_join_def)
  have bc: "box_ymin corner_annotation < box_ymax corner_annotation"
      "box_xmin corner_annotation < box_xmax corner_annotation"
    by (simp_all add: corner_annotation_def ev)
  have lc: "landmarks_px corner_annotation = [(100, 50), (300, 250)]"
    by (simp add: corner_annotation_def)
  have eqc: "truediv 100 400 = box_xmin corner_annotation \<and> truediv 50 500 = box_ymin corner_annotation \<and>
      truediv 300 400 = box_xmax corner_annotation \<and> truediv 250 500 = box_ymax corner_annotation"
    by (simp add: corner_annotation_def ev)
  have inc: "in_box corner_annotation (100, 50)" "in_box corner_annotation (300, 250)"
    by (simp_all add: corner_annotation_def ev)
  then have allc: "\<forall>p \<in> set (landmarks_px corner_annotation). in_box corner_annotation p"
    by (simp add: lc)
  from landmark_normalization[of scenario_world corner_annotation "''images''"] icc bc allc
  have accc: "dict_to_tf_example scenario_world corner_annotation ''images'' =
     Inr (normalized scenario_world corner_annotation ''images'')"
    by blast
  have ice: "image_checks scenario_world edge_annotation ''images''"
    by (simp add: image_checks_def scenario_world_def edge_annotation_def
        scenario_annotation_def endswith_def path_join_def)
  have be: "box_ymin edge_annotation < box_ymax edge_annotation"
      "box_xmin edge_annotation < box_xmax edge_annotation"
    by (simp_all add: edge_annotation_def ev)
  have le: "landmarks_px edge_annotation = [(7740561859543041 / 35184372088832, 100)]"
    by (simp add: edge_annotation_def)
  have pe: "b_xmax (box edge_annotation) < 7740561859543041 / 35184372088832"
    by (simp add: edge_annotation_def)
  have ine: "in_box edge_annotation (7740561859543041 / 35184372088832, 100)"
    by (simp add: edge_annotation_def ev)
  then have alle: "\<forall>p \<in> set (landmarks_px edge_annotation). in_box edge_annotation p"
    by (simp add: le)
  from landmark_normalization[of scenario_world edge_annotation "''images''"] ice be alle
  have acce: "dict_to_tf_example scenario_world edge_annotation ''images'' =
     Inr (normalized scenario_world edge_annotation ''images'')"
    by blast
  show ?thesis
    using scenario_accepts first l hd ico bo m o rej icc bc lc eqc inc accc ice be le pe ine acce
    by blast
qed

text \<open>
  Claim C4 says that every accepted record has its box within the unit square, with
  \<open>xmin < xmax\<close> and \<open>ymin < ymax\<close>. The validator does not compare the box with 0 or
  1: the annotation of the scenario with \<open>box.xmax = 500\<close> on an image 400 wide is
  accepted with \<open>xmax = 1.25\<close>. And the order it asserts is the order of the doubles,
  which single precision need not keep strict: the box from 100 to 100.000001 is
  accepted, and its record has \<open>xmin = xmax = 0.25\<close>.
\<close>

theorem unit_square_counterexample:
  "dict_to_tf_example scenario_world oversize_annotation ''images'' =
     Inr (normalized scenario_world oversize_annotation ''images'') \<and>
   xmax (normalized scenario_world oversize_annotation ''images'') = 5 / 4 \<and>
   \<not> xmax (normalized scenario_world oversize_annotation ''images'') \<le> 1 \<and>
   dict_to_tf_example scenario_world sliver_annotation ''images'' =
     Inr (normalized scenario_world sliver_annotation ''images'') \<and>
   xmin (normalized scenario_world sliver_annotation ''images'') = 1 / 4 \<and>
   xmax (normalized scenario_world sliver_annotation ''images'') = 1 / 4 \<and>
   \<not> xmin (normalized scenario_world sliver_annotation ''images'')
       < xmax (normalized scenario_world sliver_annotation ''images'')"
proof -
  note ev = box_xmin_def box_xmax_def box_ymin_def box_ymax_def in_box_def
    scenario_annotation_def truediv_def py_float_def float_eval
  have "dict_to_tf_example scenario_world oversize_annotation ''images'' =
     Inr (normalized scenario_world oversize_annotation ''images'')"
    unfolding dict_to_tf_example_Inr_iff
    by (simp add: image_checks_def scenario_world_def oversize_annotation_def
        endswith_def path_join_def ev)
  moreover have "xmax (normalized scenario_world oversize_annotation ''images'') = 5 / 4"
    by (simp add: normalized_def oversize_annotation_def ev)
  moreover have "dict_to_tf_example scenario_world sliver_annotation ''images'' =
     Inr (normalized scenario_world sliver_annotation ''images'')"
    unfolding dict_to_tf_example_Inr_iff
    by (simp add: image_checks_def scenario_world_def sliver_annotation_def
        endswith_def path_join_def ev)
  moreover have "xmin (normalized scenario_world sliver_annotation ''images'') = 1 / 4"
    by (simp add: normalized_def sliver_annotation_def ev)
  moreover have "xmax (normalized scenario_world sliver_annotation ''images'') = 1 / 4"
    by (simp add: normalized_def sliver_annotation_def ev)
  ultimately show ?thesis by simp
qed

text \<open>
  Claim C4, as it holds by design: for an accepted record the doubles the validator
  compares satisfy \<open>xmin < xmax\<close> and \<open>ymin < ymax\<close>, and the single-precision fields of
  the record satisfy \<open>xmin \<le> xmax\<close> and \<open>ymin \<le> ymax\<close>. A bound of the unit square
  holds when the pixel box satisfies it against the declared size: \<open>0 \<le> xmin\<close> when
  \<open>box.xmin\<close> is not negative, \<open>xmax \<le> 1\<close> when \<^verbatim>\<open>float(box.xmax)\<close> is at most the
  width, and likewise for y.
\<close>

theorem box_order:
  "dict_to_tf_example e a d = Inr ex \<Longrightarrow>
     box_xmin a < box_xmax a \<and> box_ymin a < box_ymax a \<and>
     xmin ex \<le> xmax ex \<and> ymin ex \<le> ymax ex \<and>
     (0 \<le> b_xmin (box a) \<longrightarrow> 0 \<le> xmin ex) \<and>
     (py_float (b_xmax (box a)) \<le> real_of_int (width (size_of a)) \<longrightarrow> xmax ex \<le> 1) \<and>
     (0 \<le> b_ymin (box a) \<longrightarrow> 0 \<le> ymin ex) \<and>
     (py_float (b_ymax (box a)) \<le> real_of_int (height (size_of a)) \<longrightarrow> ymax ex \<le> 1)"
proof -
  assume ok: "dict_to_tf_example e a d = Inr ex"
  then have ex: "ex = normalized e a d"
    and ic: "image_checks e a d"
    and y: "box_ymin a < box_ymax a"
    and x: "box_xmin a < box_xmax a"
    by (simp_all add: dict_to_tf_example_Inr_iff)
  note w = image_checks_size(1)[OF ic] and h = image_checks_size(2)[OF ic]
  have "xmin ex \<le> xmax ex" using x by (simp add: ex normalized_def fl32_mono)
  moreover have "ymin ex \<le> ymax ex" using y by (simp add: ex normalized_def fl32_mono)
  moreover have "0 \<le> b_xmin (box a) \<longrightarrow> 0 \<le> xmin ex"
    using stored_nonneg[OF w] by (simp add: ex normalized_def box_xmin_def)
  moreover have "0 \<le> b_ymin (box a) \<longrightarrow> 0 \<le> ymin ex"
    using stored_nonneg[OF h] by (simp add: ex normalized_def box_ymin_def)
  moreover have "py_float (b_xmax (box a)) \<le> real_of_int (width (size_of a)) \<longrightarrow> xmax ex \<le> 1"
    using stored_le_1[OF w] by (simp add: ex normalized_def box_xmax_def)
  moreover have "py_float (b_ymax (box a)) \<le> real_of_int (height (size_of a)) \<longrightarrow> ymax ex \<le> 1"
    using stored_le_1[OF h] by (simp add: ex normalized_def box_ymax_def)
  ultimately show ?thesis using x y by blast
qed

theorem box_order_witness:
  "dict_to_tf_example scenario_world scenario_annotation ''images'' = Inr scenario_example \<and>
   0 \<le> b_xmin (box scenario_annotation) \<and>
   py_float (b_xmax (box scenario_annotation)) \<le> real_of_int (width (size_of scenario_annotation)) \<and>
   0 \<le> b_ymin (box scenario_annotation) \<and>
   py_float (b_ymax (box scenario_annotation)) \<le> real_of_int (height (size_of scenario_annotation)) \<and>
   box_xmin scenario_annotation < box_xmax scenario_annotation \<and>
   box_ymin scenario_annotation < box_ymax scenario_annotation \<and>
   xmin scenario_example \<le> xmax scenario_example \<and> ymin scenario_example \<le> ymax scenario_example \<and>
   0 \<le> xmin scenario_example \<and> xmax scenario_example \<le> 1 \<and>
   0 \<le> ymin scenario_example \<and> ymax scenario_example \<le> 1"
proof -
  have h: "0 \<le> b_xmin (box scenario_annotation)"
    "py_float (b_xmax (box scenario_annotation)) \<le> real_of_int (width (size_of scenario_annotation))"
    "0 \<le> b_ymin (box scenario_annotation)"
    "py_float (b_ymax (box scenario_annotation)) \<le> real_of_int (height (size_of scenario_annotation))"
    by (simp_all add: scenario_annotation_def py_float_def float_eval)
  from box_order[OF scenario_accepts] h scenario_accepts show ?thesis by blast
qed

lemma length_flattened:
  "length (concat (map (\<lambda>(x, y). [f x y, g x y]) l)) = 2 * length l"
  by (induction l) auto

lemma xmax_le_xmin_rejected:
  assumes "b_xmax (box an) \<le> b_xmin (box an)"
  shows "\<exists>err. dict_to_tf_example w an d = Inl err"
proof (cases "dict_to_tf_example w an d")
  case (Inl err)
  then show ?thesis by blast
next
  case (Inr ex)
  then have ic: "image_checks w an d"
    and x: "box_xmin an < box_xmax an"
    by (simp_all add: dict_to_tf_example_Inr_iff)
  from image_checks_size(1)[OF ic] assms have "box_xmax an \<le> box_xmin an"
    by (rule box_xmax_le_xmin)
  with x show ?thesis by simp
qed

lemma xmax_le_xmin_line_92:
  assumes "image_checks w an d" and "b_xmax (box an) \<le> b_xmin (box an)"
  shows "dict_to_tf_example w an d = Inl (AssertionError 92)"
proof -
  from image_checks_size(1)[OF assms(1)] assms(2) have "box_xmax an \<le> box_xmin an"
    by (rule box_xmax_le_xmin)
  then have "\<not> box_xmin an < box_xmax an" by simp
  then show ?thesis using assms(1) by (intro dict_to_tf_example_geometry) auto
qed

lemma missing_image_error:
  assumes "endswith (filename an) ''.jpg'' \<or> endswith (filename an) ''.jpeg''"
    and "gfile_read w (path_join d (filename an)) = None"
  shows "dict_to_tf_example w an d = Inl NotFoundError"
  using assms by (auto simp: dict_to_tf_example_def Let_def)

lemma main_abort_error:
  assumes "num_shards a \<noteq> 0" and "deletable w \<or> out_dir w = None"
    and "\<forall>x \<in> set pre. \<exists>ex. load_and_convert w a x = Inr ex"
    and "load_and_convert w a entry = Inl err"
  shows "snd (main w a (pre @ entry # post)) = Some err"
  using main_abort[OF assms, of post] by auto

lemma mixed_world_good:
  "load_and_convert mixed_world scenario_args ''0.json'' = Inr scenario_example"
  by (simp add: load_and_convert_def mixed_world_def scenario_args_def path_join_def
      dict_to_tf_example_def scenario_world_def scenario_annotation_def
      scenario_example_def endswith_def Let_def truediv_def py_float_def float_feature_def
      float_list_feature_def float_eval)

text \<open>
  Claim C10. The validator never checks the number of landmark pairs: an annotation
  whose image checks pass, whose normalized box is strictly ordered and whose \<open>k\<close>
  landmark pairs all lie within the box after normalization is accepted, whatever \<open>k\<close>
  is, and the flattened landmark sequence of its record has \<open>2 * k\<close> entries. The
  instance after the theorem has three pairs.
\<close>

theorem landmark_count_unchecked:
  assumes "image_checks e a d"
    and "box_xmin a < box_xmax a" and "box_ymin a < box_ymax a"
    and "\<forall>p \<in> set (landmarks_px a). in_box a p"
  shows "\<exists>ex. dict_to_tf_example e a d = Inr ex \<and>
              length (landmarks ex) = 2 * length (landmarks_px a)"
proof -
  have "dict_to_tf_example e a d = Inr (normalized e a d)"
    using assms by (simp add: dict_to_tf_example_Inr_iff)
  moreover have "length (landmarks (normalized e a d)) = 2 * length (landmarks_px a)"
    by (simp add: normalized_def length_flattened)
  ultimately show ?thesis by blast
qed

theorem landmark_count_unchecked_witness:
  "image_checks scenario_world three_annotation ''images'' \<and>
   box_xmin three_annotation < box_xmax three_annotation \<and>
   box_ymin three_annotation < box_ymax three_annotation \<and>
   landmarks_px three_annotation = [(150, 100), (250, 100), (200, 150)] \<and>
   in_box three_annotation (150, 100) \<and> in_box three_annotation (250, 100) \<and>
   in_box three_annotation (200, 150) \<and>
   (\<exists>ex. dict_to_tf_example scenario_world three_annotation ''images'' = Inr ex \<and>
         length (landmarks ex) = 6)"
proof -
  note ev = box_xmin_def box_xmax_def box_ymin_def box_ymax_def in_box_def
    scenario_annotation_def truediv_def py_float_def float_eval
  have ic: "image_checks scenario_world three_annotation ''images''"
    by (simp add: image_checks_def scenario_world_def three_annotation_def
        scenario_annotation_def endswith_def path_join_def)
  have x: "box_xmin three_annotation < box_xmax three_annotation"
    and y: "box_ymin three_annotation < box_ymax three_annotation"
    by (simp_all add: three_annotation_def ev)
  have n: "length (landmarks_px three_annotation) = 3"
    by (simp add: three_annotation_def scenario_annotation_def)
  have inb: "\<forall>p \<in> set (landmarks_px three_annotation). in_box three_annotation p"
    by (simp add: three_annotation_def ev)
  have l: "landmarks_px three_annotation = [(150, 100), (250, 100), (200, 150)]"
    by (simp add: three_annotation_def scenario_annotation_def)
  from landmark_count_unchecked[OF ic x y inb] n ic x y inb l show ?thesis by simp
qed

text \<open>
  Claim C9. The validator returns no changed world (its result is a record or an
  exception only), and its result is determined by the annotation, the bytes of the
  one image file it reads and the decoder: two runs in worlds that agree on that file
  give the same record or the same failure, whatever else differs.
\<close>

theorem validator_deterministic:
  "gfile_read w1 (path_join d (filename a)) = gfile_read w2 (path_join d (filename a)) \<Longrightarrow>
   pil_open w1 = pil_open w2 \<Longrightarrow>
   dict_to_tf_example w1 a d = dict_to_tf_example w2 a d"
  by (rule dict_to_tf_example_frame)

theorem validator_deterministic_witness:
  "gfile_read scenario_world (path_join ''images'' (filename scenario_annotation)) =
     gfile_read other_world (path_join ''images'' (filename scenario_annotation)) \<and>
   pil_open scenario_world = pil_open other_world \<and>
   dict_to_tf_example other_world scenario_annotation ''images'' = Inr scenario_example \<and>
   dict_to_tf_example other_world inverted_annotation ''images'' =
     dict_to_tf_example scenario_world inverted_annotation ''images''"
proof -
  have g: "gfile_read scenario_world (path_join ''images'' (filename scenario_annotation)) =
     gfile_read other_world (path_join ''images'' (filename scenario_annotation))"
    by (simp add: scenario_world_def other_world_def scenario_annotation_def path_join_def)
  have g': "gfile_read other_world (path_join ''images'' (filename inverted_annotation)) =
     gfile_read scenario_world (path_join ''images'' (filename inverted_annotation))"
    by (simp add: scenario_world_def other_world_def inverted_annotation_def
        scenario_annotation_def path_join_def)
  have p: "pil_open scenario_world = pil_open other_world"
    by (simp add: other_world_def)
  from validator_deterministic[OF g p] scenario_accepts
  have "dict_to_tf_example other_world scenario_annotation ''images'' = Inr scenario_example"
    by simp
  moreover from validator_deterministic[OF g' p[symmetric]]
  have "dict_to_tf_example other_world inverted_annotation ''images'' =
     dict_to_tf_example scenario_world inverted_annotation ''images''" .
  ultimately show ?thesis using g p by blast
qed

text \<open>
  Claim C5. An annotation with \<open>box.xmax \<le> box.xmin\<close> is always rejected, and when the
  checks before line 92 pass the exception is the assertion failure of line 92, which
  is how the code realises the specification's geometry error; an annotation with an
  accepted extension whose image file does not exist is rejected with the read error
  of \<^verbatim>\<open>tf.gfile\<close>, the specification's I/O error. The two exceptions differ, and
  either one, raised for an entry that follows entries which validate, ends the run
  with that exception.
\<close>

theorem rejection_kinds:
  "(image_checks w an d \<and> b_xmax (box an) \<le> b_xmin (box an) \<longrightarrow>
      dict_to_tf_example w an d = Inl (AssertionError 92)) \<and>
   (b_xmax (box an) \<le> b_xmin (box an) \<longrightarrow> (\<exists>err. dict_to_tf_example w an d = Inl err)) \<and>
   ((endswith (filename an) ''.jpg'' \<or> endswith (filename an) ''.jpeg'') \<and>
    gfile_read w (path_join d (filename an)) = None \<longrightarrow>
      dict_to_tf_example w an d = Inl NotFoundError) \<and>
   AssertionError 92 \<noteq> NotFoundError \<and>
   (num_shards a \<noteq> 0 \<and> (deletable w \<or> out_dir w = None) \<and>
    (\<forall>x \<in> set pre. \<exists>ex. load_and_convert w a x = Inr ex) \<and>
    json_load w (path_join (annotations_dir a) entry) = Some an \<and>
    image_checks w an (image_dir a) \<and> b_xmax (box an) \<le> b_xmin (box an) \<longrightarrow>
      snd (main w a (pre @ entry # post)) = Some (AssertionError 92)) \<and>
   (num_shards a \<noteq> 0 \<and> (deletable w \<or> out_dir w = None) \<and>
    (\<forall>x \<in> set pre. \<exists>ex. load_and_convert w a x = Inr ex) \<and>
    json_load w (path_join (annotations_dir a) entry) = Some an \<and>
    (endswith (filename an) ''.jpg'' \<or> endswith (filename an) ''.jpeg'') \<and>
    gfile_read w (path_join (image_dir a) (filename an)) = None \<longrightarrow>
      snd (main w a (pre @ entry # post)) = Some NotFoundError)"
proof (intro conjI impI)
  show "AssertionError 92 \<noteq> NotFoundError" by simp
next
  assume "image_checks w an d \<and> b_xmax (box an) \<le> b_xmin (box an)"
  then show "dict_to_tf_example w an d = Inl (AssertionError 92)"
    by (simp add: xmax_le_xmin_line_92)
next
  assume "b_xmax (box an) \<le> b_xmin (box an)"
  then show "\<exists>err. dict_to_tf_example w an d = Inl err" by (rule xmax_le_xmin_rejected)
next
  assume "(endswith (filename an) ''.jpg'' \<or> endswith (filename an) ''.jpeg'') \<and>
    gfile_read w (path_join d (filename an)) = None"
  then show "dict_to_tf_example w an d = Inl NotFoundError"
    by (simp add: missing_image_error)
next
  assume h: "num_shards a \<noteq> 0 \<and> (deletable w \<or> out_dir w = None) \<and>
    (\<forall>x \<in> set pre. \<exists>ex. load_and_convert w a x = Inr ex) \<and>
    json_load w (path_join (annotations_dir a) entry) = Some an \<and>
    image_checks w an (image_dir a) \<and> b_xmax (box an) \<le> b_xmin (box an)"
  then have "load_and_convert w a entry = Inl (AssertionError 92)"
    by (simp add: load_and_convert_def xmax_le_xmin_line_92)
  with h show "snd (main w a (pre @ entry # post)) = Some (AssertionError 92)"
    by (intro main_abort_error) simp_all
next
  assume h: "num_shards a \<noteq> 0 \<and> (deletable w \<or> out_dir w = None) \<and>
    (\<forall>x \<in> set pre. \<exists>ex. load_and_convert w a x = Inr ex) \<and>
    json_load w (path_join (annotations_dir a) entry) = Some an \<and>
    (endswith (filename an) ''.jpg'' \<or> endswith (filename an) ''.jpeg'') \<and>
    gfile_read w (path_join (image_dir a) (filename an)) = None"
  then have "load_and_convert w a entry = Inl NotFoundError"
    by (simp add: load_and_convert_def missing_image_error)
  with h show "snd (main w a (pre @ entry # post)) = Some NotFoundError"
    by (intro main_abort_error) simp_all
qed

theorem rejection_kinds_witness:
  "image_checks mixed_world inverted_annotation ''images'' \<and>
   b_xmax (box inverted_annotation) \<le> b_xmin (box inverted_annotation) \<and>
   dict_to_tf_example mixed_world inverted_annotation ''images'' = Inl (AssertionError 92) \<and>
   endswith (filename missing_annotation) ''.jpg'' \<and>
   gfile_read mixed_world (path_join ''images'' (filename missing_annotation)) = None \<and>
   dict_to_tf_example mixed_world missing_annotation ''images'' = Inl NotFoundError \<and>
   snd (main mixed_world scenario_args ([''0.json''] @ ''bad.json'' # [''1.json''])) =
     Some (AssertionError 92) \<and>
   snd (main mixed_world scenario_args ([''0.json''] @ ''missing.json'' # [''1.json''])) =
     Some NotFoundError"
proof -
  have ic: "image_checks mixed_world inverted_annotation ''images''"
    by (simp add: image_checks_def mixed_world_def scenario_world_def inverted_annotation_def
        scenario_annotation_def endswith_def path_join_def)
  have inv: "b_xmax (box inverted_annotation) \<le> b_xmin (box inverted_annotation)"
    by (simp add: inverted_annotation_def scenario_annotation_def)
  have ext: "endswith (filename missing_annotation) ''.jpg''"
    by (simp add: missing_annotation_def scenario_annotation_def endswith_def)
  have gone: "gfile_read mixed_world (path_join ''images'' (filename missing_annotation)) = None"
    by (simp add: mixed_world_def scenario_world_def missing_annotation_def
        scenario_annotation_def path_join_def)
  have ns: "num_shards scenario_args \<noteq> 0" and idir: "image_dir scenario_args = ''images''"
    by (simp_all add: scenario_args_def)
  have del: "deletable mixed_world \<or> out_dir mixed_world = None"
    by (simp add: mixed_world_def scenario_world_def)
  have pre: "\<forall>x \<in> set [''0.json'']. \<exists>ex. load_and_convert mixed_world scenario_args x = Inr ex"
    using mixed_world_good by simp
  have jb: "json_load mixed_world (path_join (annotations_dir scenario_args) ''bad.json'') =
      Some inverted_annotation"
    by (simp add: mixed_world_def scenario_args_def path_join_def)
  have jm: "json_load mixed_world (path_join (annotations_dir scenario_args) ''missing.json'') =
      Some missing_annotation"
    by (simp add: mixed_world_def scenario_args_def path_join_def)
  note r1 = rejection_kinds[where w = mixed_world and an = inverted_annotation
      and d = "''images''" and a = scenario_args and pre = "[''0.json'']"
      and entry = "''bad.json''" and post = "[''1.json'']"]
  note r2 = rejection_kinds[where w = mixed_world and an = missing_annotation
      and d = "''images''" and a = scenario_args and pre = "[''0.json'']"
      and entry = "''missing.json''" and post = "[''1.json'']"]
  have a1: "dict_to_tf_example mixed_world inverted_annotation ''images'' = Inl (AssertionError 92)"
    using r1 ic inv by blast
  have a2: "dict_to_tf_example mixed_world missing_annotation ''images'' = Inl NotFoundError"
    using r2 ext gone by blast
  have a3: "snd (main mixed_world scenario_args ([''0.json''] @ ''bad.json'' # [''1.json''])) =
     Some (AssertionError 92)"
    using r1 ns del pre jb ic inv unfolding idir by blast
  have a4: "snd (main mixed_world scenario_args ([''0.json''] @ ''missing.json'' # [''1.json''])) =
     Some NotFoundError"
    using r2 ns del pre jm ext gone unfolding idir by blast
  show ?thesis using ic inv ext gone a1 a2 a3 a4 by blast
qed

lemma scenario_world_valid:
  "load_and_convert scenario_world scenario_args x = Inr scenario_example"
  by (simp add: load_and_convert_def scenario_world_def scenario_args_def
      dict_to_tf_example_def scenario_annotation_def scenario_example_def
      endswith_def path_join_def Let_def truediv_def py_float_def float_feature_def
      float_list_feature_def float_eval)

text \<open>
  Claim C1. For a run over \<open>N\<close> annotation entries with a positive requested shard
  count \<open>S\<close> that ends without an exception: the per-shard capacity is \<open>N / S\<close> rounded
  up; every entry produced a record; shard \<open>i\<close> holds block \<open>i\<close> of the records taken in
  arrival order, so the shards concatenated in index order are the records in arrival
  order; the shard files are those with index below \<open>N / capacity\<close> rounded up; the
  shard sizes add up to \<open>N\<close>; no shard exceeds the capacity; and every shard before the
  last is full. For \<open>N = 10\<close> and \<open>S = 3\<close> there are three shards, of sizes 4, 4, 2.
\<close>

theorem sharding_policy:
  assumes "0 < num_shards a" and "main w a l = (w', None)"
  shows "int (capacity a l) = \<lceil>real (length l) / real_of_int (num_shards a)\<rceil> \<and>
     length (records_of w a l) = length l \<and>
     (\<forall>i. shard_contents w' a i =
            take (capacity a l) (drop (i * capacity a l) (records_of w a l))) \<and>
     shard_files w' =
       shard_path (output_arg a) ` {i. i < shards_used (length l) (capacity a l)} \<and>
     concat (map (shard_contents w' a) [0..<shards_used (length l) (capacity a l)]) =
       records_of w a l \<and>
     sum_list (shard_sizes w' a (shards_used (length l) (capacity a l))) = length l \<and>
     (\<forall>i. length (shard_contents w' a i) \<le> capacity a l) \<and>
     (\<forall>i. i + 1 < shards_used (length l) (capacity a l) \<longrightarrow>
            length (shard_contents w' a i) = capacity a l) \<and>
     (length l = 10 \<and> num_shards a = 3 \<longrightarrow>
        shards_used (length l) (capacity a l) = 3 \<and> shard_sizes w' a 3 = [4, 4, 2])"
proof -
  let ?cap = "capacity a l"
  let ?recs = "records_of w a l"
  let ?k = "shards_used (length l) ?cap"
  have len: "length ?recs = length l" using assms by (rule main_records_length)
  have sc: "shard_contents w' a i = chunk ?cap ?recs i" for i
    unfolding capacity_def using assms by (rule main_shard_contents)
  have sc': "shard_contents w' a = chunk ?cap ?recs" using sc by (rule ext)
  have c1: "int ?cap = \<lceil>real (length l) / real_of_int (num_shards a)\<rceil>"
    using assms(1) by (rule capacity_ceiling)
  have c3: "\<forall>i. shard_contents w' a i = take ?cap (drop (i * ?cap) ?recs)"
    by (simp add: sc chunk_def)
  have c4: "shard_files w' = shard_path (output_arg a) ` {i. i < ?k}"
    unfolding capacity_def using assms by (rule main_shard_files)
  have ok: "0 < ?cap \<or> ?recs = []"
  proof (cases "l = []")
    case True
    then show ?thesis using len by simp
  next
    case False
    then show ?thesis using capacity_pos[OF assms(1)] by simp
  qed
  have c5: "concat (map (shard_contents w' a) [0..<?k]) = ?recs"
    using concat_all_chunks[OF ok] by (simp only: sc' len)
  have "sum_list (shard_sizes w' a ?k) = length (concat (map (shard_contents w' a) [0..<?k]))"
    by (simp add: shard_sizes_def length_concat comp_def)
  then have c6: "sum_list (shard_sizes w' a ?k) = length l" by (simp only: c5 len)
  have c7: "\<forall>i. length (shard_contents w' a i) \<le> ?cap"
    by (simp add: sc length_chunk_le)
  have c8: "\<forall>i. i + 1 < ?k \<longrightarrow> length (shard_contents w' a i) = ?cap"
  proof (intro allI impI)
    fix i assume i: "i + 1 < ?k"
    then have "l \<noteq> []" by (auto simp: shards_used_0)
    then have cap: "0 < ?cap" using capacity_pos[OF assms(1)] by simp
    from i have "(i + 1) * ?cap < length l" by (simp only: shards_used_iff[OF cap])
    then have "i * ?cap + ?cap \<le> length ?recs" by (simp add: len)
    then show "length (shard_contents w' a i) = ?cap"
      by (simp only: sc length_chunk_full)
  qed
  have c9: "length l = 10 \<and> num_shards a = 3 \<longrightarrow> ?k = 3 \<and> shard_sizes w' a 3 = [4, 4, 2]"
  proof
    assume h: "length l = 10 \<and> num_shards a = 3"
    then have cap: "?cap = 4" by (simp add: capacity_ten_three)
    have k: "?k = 3" using h by (simp add: cap shards_used_def)
    have "length ?recs = 10" using len h by simp
    then have "map (\<lambda>i. length (chunk 4 ?recs i)) [0..<3] = [4, 4, 2]" by (rule sizes_ten_three)
    then have "shard_sizes w' a 3 = [4, 4, 2]"
      unfolding shard_sizes_def sc' cap .
    with k show "?k = 3 \<and> shard_sizes w' a 3 = [4, 4, 2]" by simp
  qed
  from c1 len c3 c4 c5 c6 c7 c8 c9 show ?thesis by blast
qed

theorem sharding_policy_witness:
  "0 < num_shards scenario_args \<and>
   snd (main scenario_world scenario_args ten_entries) = None \<and>
   length ten_entries = 10 \<and> num_shards scenario_args = 3 \<and>
   capacity scenario_args ten_entries = 4 \<and>
   shard_sizes (fst (main scenario_world scenario_args ten_entries)) scenario_args 3 = [4, 4, 2] \<and>
   shard_contents (fst (main scenario_world scenario_args ten_entries)) scenario_args 2 =
     [scenario_example, scenario_example]"
proof -
  have pos: "0 < num_shards scenario_args" and three: "num_shards scenario_args = 3"
    by (simp_all add: scenario_args_def)
  have ten: "length ten_entries = 10" by (simp add: ten_entries_def)
  have "\<exists>w'. main scenario_world scenario_args ten_entries = (w', None)"
  proof (rule main_total)
    show "num_shards scenario_args \<noteq> 0" by (simp add: scenario_args_def)
    show "deletable scenario_world \<or> out_dir scenario_world = None"
      by (simp add: scenario_world_def)
    show "\<forall>x \<in> set ten_entries.
            \<exists>ex. load_and_convert scenario_world scenario_args x = Inr ex"
      by (simp add: scenario_world_valid)
  qed
  then obtain w' where run: "main scenario_world scenario_args ten_entries = (w', None)" ..
  have cap: "capacity scenario_args ten_entries = 4"
    using ten three by (rule capacity_ten_three)
  have recs: "records_of scenario_world scenario_args ten_entries =
      [scenario_example, scenario_example, scenario_example, scenario_example,
       scenario_example, scenario_example, scenario_example, scenario_example,
       scenario_example, scenario_example]"
    by (simp add: records_of_def scenario_world_valid ten_entries_def)
  note sp = sharding_policy[OF pos run]
  from sp ten three have sizes: "shard_sizes w' scenario_args 3 = [4, 4, 2]" by blast
  from sp have "shard_contents w' scenario_args 2 =
      take (capacity scenario_args ten_entries)
        (drop (2 * capacity scenario_args ten_entries)
           (records_of scenario_world scenario_args ten_entries))" by blast
  then have last: "shard_contents w' scenario_args 2 = [scenario_example, scenario_example]"
    by (simp add: cap recs)
  show ?thesis using pos ten three cap sizes last by (simp add: run)
qed

text \<open>
  Claim C7 says that a successful run over \<open>N \<ge> 1\<close> entries leaves exactly
  \<^verbatim>\<open>num_shards\<close> files. The loop fills shards of \<open>N / num_shards\<close> rounded up records
  and opens a shard only when a record arrives for it, so fewer files can result: one
  entry with two requested shards gives the single file \<^verbatim>\<open>shard-0000.tfrecords\<close>.
\<close>

theorem shard_count_counterexample:
  "1 \<le> length [''0.json''] \<and> num_shards two_shard_args = 2 \<and>
   snd (main scenario_world two_shard_args [''0.json'']) = None \<and>
   shard_files (fst (main scenario_world two_shard_args [''0.json''])) =
     {''out/shard-0000.tfrecords''} \<and>
   card (shard_files (fst (main scenario_world two_shard_args [''0.json'']))) \<noteq> 2"
proof -
  have "num_shards two_shard_args = 2"
    by (simp add: two_shard_args_def scenario_args_def)
  then show ?thesis using single_entry_run by simp
qed

text \<open>
  Claim C7, as it holds by design: after a successful run over \<open>N \<ge> 1\<close> entries with a
  positive shard count, the files are \<^verbatim>\<open>shard-%04d.tfrecords\<close> for the indices
  \<open>0, \<dots>, k - 1\<close>, where \<open>k\<close> is \<open>N / capacity\<close> rounded up; \<open>1 \<le> k \<le> num_shards\<close>, with
  \<open>k = num_shards\<close> when \<^verbatim>\<open>num_shards\<close> divides \<open>N\<close>; the index is printed in decimal,
  zero-padded to four digits (exactly four below 10000), and distinct indices give
  distinct names.
\<close>

theorem shard_file_count:
  assumes "0 < num_shards a" and "l \<noteq> []" and "main w a l = (w', None)"
  shows "shard_files w' =
       shard_path (output_arg a) ` {i. i < shards_used (length l) (capacity a l)} \<and>
     card (shard_files w') = shards_used (length l) (capacity a l) \<and>
     1 \<le> card (shard_files w') \<and>
     card (shard_files w') \<le> nat (num_shards a) \<and>
     (num_shards a dvd int (length l) \<longrightarrow> card (shard_files w') = nat (num_shards a)) \<and>
     (\<forall>i. shard_path (output_arg a) i =
            path_join (output_arg a) (''shard-'' @ fmt_04d i @ ''.tfrecords'')) \<and>
     (\<forall>i. nat_of_str (fmt_04d i) = i) \<and>
     (\<forall>i. i < 10000 \<longrightarrow> length (fmt_04d i) = 4)"
proof -
  let ?k = "shards_used (length l) (capacity a l)"
  have c1: "shard_files w' = shard_path (output_arg a) ` {i. i < ?k}"
    unfolding capacity_def using assms(1,3) by (rule main_shard_files)
  have c2: "card (shard_files w') = ?k" using assms(1,3) by (rule main_card_files)
  have cap: "0 < capacity a l" using assms(1,2) by (rule capacity_pos)
  have "0 < ?k" using assms(2) by (simp add: shards_used_iff[OF cap])
  then have c3: "1 \<le> card (shard_files w')" by (simp add: c2)
  have c4: "card (shard_files w') \<le> nat (num_shards a)"
    unfolding c2 capacity_def using assms(1) by (rule shards_used_le)
  have c5: "num_shards a dvd int (length l) \<longrightarrow> card (shard_files w') = nat (num_shards a)"
    unfolding c2 using capacity_dvd[OF assms(1,2)] by blast
  have c6: "\<forall>i. shard_path (output_arg a) i =
            path_join (output_arg a) (''shard-'' @ fmt_04d i @ ''.tfrecords'')"
    by (simp add: shard_path_def)
  have c7: "\<forall>i. nat_of_str (fmt_04d i) = i" by (simp add: nat_of_str_fmt_04d)
  have c8: "\<forall>i. i < 10000 \<longrightarrow> length (fmt_04d i) = 4" by (simp add: length_fmt_04d)
  from c1 c2 c3 c4 c5 c6 c7 c8 show ?thesis by blast
qed

theorem shard_file_count_witness:
  "0 < num_shards scenario_args \<and> ten_entries \<noteq> [] \<and>
   snd (main scenario_world scenario_args ten_entries) = None \<and>
   shard_files (fst (main scenario_world scenario_args ten_entries)) =
     {''out/shard-0000.tfrecords'', ''out/shard-0001.tfrecords'', ''out/shard-0002.tfrecords''} \<and>
   card (shard_files (fst (main scenario_world scenario_args ten_entries))) = 3"
proof -
  have pos: "0 < num_shards scenario_args" and three: "num_shards scenario_args = 3"
    and out: "output_arg scenario_args = ''out''"
    by (simp_all add: scenario_args_def)
  have ten: "length ten_entries = 10" and ne: "ten_entries \<noteq> []"
    by (simp_all add: ten_entries_def)
  have "\<exists>w'. main scenario_world scenario_args ten_entries = (w', None)"
  proof (rule main_total)
    show "num_shards scenario_args \<noteq> 0" by (simp add: scenario_args_def)
    show "deletable scenario_world \<or> out_dir scenario_world = None"
      by (simp add: scenario_world_def)
    show "\<forall>x \<in> set ten_entries.
            \<exists>ex. load_and_convert scenario_world scenario_args x = Inr ex"
      by (simp add: scenario_world_valid)
  qed
  then obtain w' where run: "main scenario_world scenario_args ten_entries = (w', None)" ..
  have cap: "capacity scenario_args ten_entries = 4"
    using ten three by (rule capacity_ten_three)
  have k: "shards_used (length ten_entries) (capacity scenario_args ten_entries) = 3"
    by (simp add: cap ten shards_used_def)
  have set3: "{i::nat. i < 3} = {0, 1, 2}" by auto
  note fc = shard_file_count[OF pos ne run]
  from fc have "shard_files w' = shard_path (output_arg scenario_args) `
      {i. i < shards_used (length ten_entries) (capacity scenario_args ten_entries)}" by blast
  then have "shard_files w' = shard_path ''out'' ` {i. i < 3}"
    by (simp only: k out)
  then have files: "shard_files w' =
     {''out/shard-0000.tfrecords'', ''out/shard-0001.tfrecords'', ''out/shard-0002.tfrecords''}"
    by (simp add: set3 shard_path_0 shard_path_1 shard_path_2)
  from fc have "card (shard_files w') =
      shards_used (length ten_entries) (capacity scenario_args ten_entries)" by blast
  then have card: "card (shard_files w') = 3" by (simp only: k)
  show ?thesis using pos ne files card by (simp add: run)
qed

lemma mixed_world_bad:
  "load_and_convert mixed_world scenario_args ''bad.json'' = Inl (AssertionError 92)"
  by (simp add: load_and_convert_def mixed_world_def scenario_args_def path_join_def
      dict_to_tf_example_def scenario_world_def inverted_annotation_def
      scenario_annotation_def endswith_def Let_def truediv_def py_float_def float_feature_def
      float_list_feature_def float_eval)

text \<open>
  Claim C6. \<^verbatim>\<open>main\<close> has no \<^verbatim>\<open>try\<close>: when the entries before \<open>entry\<close> validate and
  \<open>entry\<close> fails with \<open>err\<close>, the run ends with \<open>err\<close>; the output directory is left as
  the loop had it after the entries before \<open>entry\<close>, together with the empty file of the
  shard that line 153 opens when \<open>entry\<close> starts a shard; the later entries are never
  looked at (the outcome is the same whatever they are); and, for a positive shard
  count, the shards hold exactly the records of the entries before \<open>entry\<close>, in order.
\<close>

theorem fail_fast:
  assumes "num_shards a \<noteq> 0" and "deletable w \<or> out_dir w = None"
    and "\<forall>x \<in> set pre. \<exists>ex. load_and_convert w a x = Inr ex"
    and "load_and_convert w a entry = Inl err"
  shows "snd (main w a (pre @ entry # post)) = Some err \<and>
     (\<exists>st. run_loop w a (shard_size_of (int (length (pre @ entry # post))) (num_shards a))
             initial_state pre = (st, None) \<and>
           fst (main w a (pre @ entry # post)) =
             w\<lparr>out_dir := Some (files (open_shard a st))\<rparr>) \<and>
     (\<forall>post'. length post' = length post \<longrightarrow>
        main w a (pre @ entry # post') = main w a (pre @ entry # post)) \<and>
     (0 < num_shards a \<longrightarrow>
        (\<forall>i. shard_contents (fst (main w a (pre @ entry # post))) a i =
              chunk (capacity a (pre @ entry # post)) (records_of w a pre) i))"
proof -
  let ?l = "pre @ entry # post"
  let ?ss = "shard_size_of (int (length ?l)) (num_shards a)"
  from main_abort[OF assms, of post] obtain st
    where st: "run_loop w a ?ss initial_state pre = (st, None)"
      and m: "main w a ?l = (w\<lparr>out_dir := Some (files (open_shard a st))\<rparr>, Some err)"
    by blast
  have c1: "snd (main w a ?l) = Some err" using m by simp
  have c2: "\<exists>st. run_loop w a ?ss initial_state pre = (st, None) \<and>
           fst (main w a ?l) = w\<lparr>out_dir := Some (files (open_shard a st))\<rparr>"
    using st m by auto
  have c3: "\<forall>post'. length post' = length post \<longrightarrow>
        main w a (pre @ entry # post') = main w a ?l"
  proof (intro allI impI)
    fix post' :: "string list"
    assume len: "length post' = length post"
    from main_abort[OF assms, of post'] obtain st'
      where st': "run_loop w a (shard_size_of (int (length (pre @ entry # post'))) (num_shards a))
                    initial_state pre = (st', None)"
        and m': "main w a (pre @ entry # post') =
                   (w\<lparr>out_dir := Some (files (open_shard a st'))\<rparr>, Some err)"
      by blast
    from st' len have "run_loop w a ?ss initial_state pre = (st', None)" by simp
    with st have "st' = st" by simp
    with m m' show "main w a (pre @ entry # post') = main w a ?l" by simp
  qed
  have c4: "0 < num_shards a \<longrightarrow>
        (\<forall>i. shard_contents (fst (main w a ?l)) a i =
              chunk (capacity a ?l) (records_of w a pre) i)"
  proof (intro impI allI)
    fix i
    assume S: "0 < num_shards a"
    have ne: "?l \<noteq> []" by simp
    have cap: "0 < capacity a ?l" using S ne by (rule capacity_pos)
    have "0 \<le> ?ss" using S shard_size_of_nonneg[of "num_shards a" "length ?l"] by simp
    then have icap: "int (capacity a ?l) = ?ss" by (simp add: capacity_def)
    have "run_loop w a (int (capacity a ?l)) initial_state pre = (st, None)"
      using st by (simp only: icap)
    from run_loop_inv_valid[OF cap shard_inv_initial this]
    have inv: "shard_inv (capacity a ?l) (output_arg a) (records_of w a pre) st" .
    from open_shard_contents[OF cap inv, of i]
    show "shard_contents (fst (main w a ?l)) a i =
              chunk (capacity a ?l) (records_of w a pre) i"
      by (simp add: shard_contents_def m)
  qed
  from c1 c2 c3 c4 show ?thesis by blast
qed

theorem fail_fast_witness:
  "num_shards scenario_args \<noteq> 0 \<and> deletable mixed_world \<and>
   load_and_convert mixed_world scenario_args ''0.json'' = Inr scenario_example \<and>
   load_and_convert mixed_world scenario_args ''bad.json'' = Inl (AssertionError 92) \<and>
   snd (main mixed_world scenario_args [''0.json'', ''bad.json'', ''1.json'']) =
     Some (AssertionError 92) \<and>
   main mixed_world scenario_args [''0.json'', ''bad.json'', ''missing.json''] =
     main mixed_world scenario_args [''0.json'', ''bad.json'', ''1.json''] \<and>
   shard_contents (fst (main mixed_world scenario_args [''0.json'', ''bad.json'', ''1.json'']))
     scenario_args 0 = [scenario_example] \<and>
   shard_contents (fst (main mixed_world scenario_args [''0.json'', ''bad.json'', ''1.json'']))
     scenario_args 1 = []"
proof -
  have ns: "num_shards scenario_args \<noteq> 0" and pos: "0 < num_shards scenario_args"
    by (simp_all add: scenario_args_def)
  have del: "deletable mixed_world" by (simp add: mixed_world_def scenario_world_def)
  then have del': "deletable mixed_world \<or> out_dir mixed_world = None" by simp
  have pre: "\<forall>x \<in> set [''0.json'']. \<exists>ex. load_and_convert mixed_world scenario_args x = Inr ex"
    using mixed_world_good by simp
  note ff = fail_fast[OF ns del' pre mixed_world_bad, of "[''1.json'']"]
  have l: "[''0.json''] @ ''bad.json'' # [''1.json''] = [''0.json'', ''bad.json'', ''1.json'']"
    by simp
  have cap: "capacity scenario_args ([''0.json''] @ ''bad.json'' # [''1.json'']) = 1"
    by (simp add: capacity_def scenario_args_def shard_size_of_def)
  have recs: "records_of mixed_world scenario_args [''0.json''] = [scenario_example]"
    by (simp add: records_of_def mixed_world_good)
  from ff have e: "snd (main mixed_world scenario_args ([''0.json''] @ ''bad.json'' # [''1.json''])) =
     Some (AssertionError 92)" by blast
  from ff have "\<forall>post'. length post' = length [''1.json''] \<longrightarrow>
        main mixed_world scenario_args ([''0.json''] @ ''bad.json'' # post') =
        main mixed_world scenario_args ([''0.json''] @ ''bad.json'' # [''1.json''])" by blast
  then have "length [''missing.json''] = length [''1.json''] \<longrightarrow>
        main mixed_world scenario_args ([''0.json''] @ ''bad.json'' # [''missing.json'']) =
        main mixed_world scenario_args ([''0.json''] @ ''bad.json'' # [''1.json''])" by (rule spec)
  then have same: "main mixed_world scenario_args ([''0.json''] @ ''bad.json'' # [''missing.json'']) =
        main mixed_world scenario_args ([''0.json''] @ ''bad.json'' # [''1.json''])" by simp
  from ff pos have sc: "shard_contents
       (fst (main mixed_world scenario_args ([''0.json''] @ ''bad.json'' # [''1.json''])))
       scenario_args i =
     chunk (capacity scenario_args ([''0.json''] @ ''bad.json'' # [''1.json'']))
       (records_of mixed_world scenario_args [''0.json'']) i" for i by blast
  have s0: "shard_contents
       (fst (main mixed_world scenario_args ([''0.json''] @ ''bad.json'' # [''1.json''])))
       scenario_args 0 = [scenario_example]"
    unfolding sc cap recs by (simp add: chunk_def)
  have s1: "shard_contents
       (fst (main mixed_world scenario_args ([''0.json''] @ ''bad.json'' # [''1.json''])))
       scenario_args 1 = []"
    unfolding sc cap recs by (simp add: chunk_def)
  show ?thesis
    using ns del mixed_world_good mixed_world_bad e same s0 s1 unfolding l by simp
qed

text \<open>
  Claim C8. Lines 144--145 replace the output directory: when the existing tree can
  be removed, \<^verbatim>\<open>rmtree\<close> followed by \<^verbatim>\<open>mkdir\<close> leaves a fresh empty directory whatever
  was there, so a run started on a directory with content behaves exactly as a run
  started where nothing exists. In particular a second run pointed at the output
  directory of a first run ends as it would have ended on its own, and on success the
  directory holds the second run's shards and nothing else. (When the tree cannot be
  removed, \<^verbatim>\<open>ignore_errors=True\<close> hides that and \<^verbatim>\<open>mkdir\<close> raises: the run does not start.)
\<close>

theorem destructive_replace:
  assumes "deletable w" and "num_shards a2 \<noteq> 0" and "output_arg a2 = output_arg a1"
  shows "mkdir (rmtree_ignore_errors (w\<lparr>out_dir := Some old\<rparr>)) =
           Inr (w\<lparr>out_dir := Some Map.empty\<rparr>) \<and>
     main (w\<lparr>out_dir := Some old\<rparr>) a2 l2 = main (w\<lparr>out_dir := None\<rparr>) a2 l2 \<and>
     main (fst (main w a1 l1)) a2 l2 = main (w\<lparr>out_dir := None\<rparr>) a2 l2 \<and>
     (0 < num_shards a2 \<and> snd (main (fst (main w a1 l1)) a2 l2) = None \<longrightarrow>
        shard_files (fst (main (fst (main w a1 l1)) a2 l2)) =
          shard_path (output_arg a2) ` {i. i < shards_used (length l2) (capacity a2 l2)})"
proof -
  have c1: "mkdir (rmtree_ignore_errors (w\<lparr>out_dir := Some old\<rparr>)) =
           Inr (w\<lparr>out_dir := Some Map.empty\<rparr>)"
    using assms(1) by (simp add: mkdir_def rmtree_ignore_errors_def)
  have c2: "main (w\<lparr>out_dir := Some old\<rparr>) a2 l2 = main (w\<lparr>out_dir := None\<rparr>) a2 l2"
    using assms(1,2) by (rule main_out_dir_irrelevant)
  obtain z where z: "fst (main w a1 l1) = w\<lparr>out_dir := z\<rparr>" using main_fst by blast
  have c3: "main (fst (main w a1 l1)) a2 l2 = main (w\<lparr>out_dir := None\<rparr>) a2 l2"
    unfolding z using assms(1,2) by (rule main_out_dir_irrelevant)
  have c4: "0 < num_shards a2 \<and> snd (main (fst (main w a1 l1)) a2 l2) = None \<longrightarrow>
        shard_files (fst (main (fst (main w a1 l1)) a2 l2)) =
          shard_path (output_arg a2) ` {i. i < shards_used (length l2) (capacity a2 l2)}"
  proof
    assume h: "0 < num_shards a2 \<and> snd (main (fst (main w a1 l1)) a2 l2) = None"
    then have run: "main (fst (main w a1 l1)) a2 l2 =
        (fst (main (fst (main w a1 l1)) a2 l2), None)"
      by (cases "main (fst (main w a1 l1)) a2 l2") simp
    from h have S: "0 < num_shards a2" by simp
    show "shard_files (fst (main (fst (main w a1 l1)) a2 l2)) =
          shard_path (output_arg a2) ` {i. i < shards_used (length l2) (capacity a2 l2)}"
      unfolding capacity_def using S run by (rule main_shard_files)
  qed
  from c1 c2 c3 c4 show ?thesis by blast
qed

theorem destructive_replace_witness:
  "deletable scenario_world \<and> num_shards two_shard_args \<noteq> 0 \<and>
   output_arg two_shard_args = output_arg scenario_args \<and>
   card (shard_files (fst (main scenario_world scenario_args ten_entries))) = 3 \<and>
   snd (main (fst (main scenario_world scenario_args ten_entries)) two_shard_args [''0.json'']) =
     None \<and>
   shard_files
     (fst (main (fst (main scenario_world scenario_args ten_entries)) two_shard_args [''0.json''])) =
     {''out/shard-0000.tfrecords''}"
proof -
  have del: "deletable scenario_world" and none: "scenario_world\<lparr>out_dir := None\<rparr> = scenario_world"
    by (simp_all add: scenario_world_def)
  have ns: "num_shards two_shard_args \<noteq> 0"
    and out: "output_arg two_shard_args = output_arg scenario_args"
    by (simp_all add: two_shard_args_def)
  have pos: "0 < num_shards scenario_args" by (simp add: scenario_args_def)
  have "\<exists>w'. main scenario_world scenario_args ten_entries = (w', None)"
  proof (rule main_total)
    show "num_shards scenario_args \<noteq> 0" by (simp add: scenario_args_def)
    show "deletable scenario_world \<or> out_dir scenario_world = None"
      by (simp add: scenario_world_def)
    show "\<forall>x \<in> set ten_entries.
            \<exists>ex. load_and_convert scenario_world scenario_args x = Inr ex"
      by (simp add: scenario_world_valid)
  qed
  then obtain w' where run: "main scenario_world scenario_args ten_entries = (w', None)" ..
  have "card (shard_files w') =
      shards_used (length ten_entries) (capacity scenario_args ten_entries)"
    using pos run by (rule main_card_files)
  also have "\<dots> = 3"
  proof -
    have ten: "length ten_entries = 10" by (simp add: ten_entries_def)
    have three: "num_shards scenario_args = 3" by (simp add: scenario_args_def)
    have "capacity scenario_args ten_entries = 4" using ten three by (rule capacity_ten_three)
    then show ?thesis by (simp add: ten shards_used_def)
  qed
  finally have first: "card (shard_files (fst (main scenario_world scenario_args ten_entries))) = 3"
    by (simp add: run)
  from destructive_replace[OF del ns out, of _ "[''0.json'']" ten_entries]
  have "main (fst (main scenario_world scenario_args ten_entries)) two_shard_args [''0.json''] =
      main scenario_world two_shard_args [''0.json'']"
    by (simp only: none)
  with single_entry_run first del ns out show ?thesis by simp
qed

end
